theory Spec2Isabelle
  imports Complex_Main "HOL-Library.AList"
begin

section \<open>JavaScript values, strings and plain objects\<close>

text \<open>
  The two modules are TypeScript; at run time their inputs are JavaScript values. Numbers
  are modelled as integers (status codes, sizes) plus \<open>NaN\<close> and the two infinities; an
  object that the code only passes on is an opaque reference. A string is a sequence of
  code units below 256, which is what a header value is.
\<close>

datatype js_val =
    JUndefined
  | JNull
  | JBool bool
  | JNaN
  | JInfinity
  | JNegInfinity
  | JNum int
  | JStr string
  | JObj nat

text \<open>An exception value: what a \<open>throw\<close> carries.\<close>

datatype exn = TypeError string | Thrown string

fun truthy :: "js_val \<Rightarrow> bool" where
  "truthy JUndefined = False"
| "truthy JNull = False"
| "truthy (JBool b) = b"
| "truthy JNaN = False"
| "truthy JInfinity = True"
| "truthy JNegInfinity = True"
| "truthy (JNum n) = (n \<noteq> 0)"
| "truthy (JStr s) = (s \<noteq> [])"
| "truthy (JObj r) = True"

text \<open>\<open>a || b\<close> on values that are already evaluated.\<close>

definition js_or :: "js_val \<Rightarrow> js_val \<Rightarrow> js_val" where
  "js_or a b = (if truthy a then a else b)"

text \<open>Decimal digits of a natural number, most significant first.\<close>

fun digits :: "nat \<Rightarrow> string" where
  "digits n =
     (if n < 10 then [char_of (48 + n)]
      else digits (n div 10) @ [char_of (48 + n mod 10)])"

declare digits.simps [simp del]

definition decimal :: "int \<Rightarrow> string" where
  "decimal i = (if i < 0 then CHR ''-'' # digits (nat (- i)) else digits (nat i))"

text \<open>\<open>ToString\<close>, as a template literal and \<open>parseInt\<close> apply it.\<close>

fun to_string :: "js_val \<Rightarrow> string" where
  "to_string JUndefined = ''undefined''"
| "to_string JNull = ''null''"
| "to_string (JBool b) = (if b then ''true'' else ''false'')"
| "to_string JNaN = ''NaN''"
| "to_string JInfinity = ''Infinity''"
| "to_string JNegInfinity = ''-Infinity''"
| "to_string (JNum n) = decimal n"
| "to_string (JStr s) = s"
| "to_string (JObj r) = ''[object Object]''"

text \<open>\<open>s.startsWith(p)\<close> and \<open>s.includes(needle)\<close>.\<close>

fun starts_with :: "string \<Rightarrow> string \<Rightarrow> bool" where
  "starts_with s [] = True"
| "starts_with [] (p # ps) = False"
| "starts_with (c # cs) (p # ps) = (c = p \<and> starts_with cs ps)"

fun str_includes :: "string \<Rightarrow> string \<Rightarrow> bool" where
  "str_includes [] needle = (needle = [])"
| "str_includes (c # cs) needle = (starts_with (c # cs) needle \<or> str_includes cs needle)"

text \<open>
  \<open>s.split(sep)\<close>: the pieces of \<open>s\<close> between the occurrences of \<open>sep\<close>, scanned from
  the left; an empty separator splits into single characters.
\<close>

function split_at :: "string \<Rightarrow> string \<Rightarrow> string \<Rightarrow> string list" where
  "split_at sep acc [] = [rev acc]"
| "split_at sep acc (c # cs) =
     (if sep \<noteq> [] \<and> starts_with (c # cs) sep
      then rev acc # split_at sep [] (drop (length sep) (c # cs))
      else split_at sep (c # acc) cs)"
  by pat_completeness auto
termination
  by (relation "measure (\<lambda>(sep, acc, s). length s)") (auto simp: neq_Nil_conv)

definition split :: "string \<Rightarrow> string \<Rightarrow> string list" where
  "split s sep = (if sep = [] then map (\<lambda>c. [c]) s else split_at sep [] s)"

text \<open>\<open>String.prototype.toLowerCase\<close> on ASCII letters.\<close>

definition lower_char :: "char \<Rightarrow> char" where
  "lower_char c =
     (if (65::nat) \<le> of_char c \<and> of_char c \<le> (90::nat) then char_of (of_char c + (32::nat))
      else c)"

definition toLowerCase :: "string \<Rightarrow> string" where
  "toLowerCase s = map lower_char s"

text \<open>
  The Number value of a natural number: the nearest double, ties to the even
  significand, and infinity (\<open>None\<close>) from \<open>2^1024\<close> on. Up to \<open>2^53\<close> every integer is
  a double; a larger one keeps its 53 leading bits, rounded.
\<close>

fun bit_length :: "nat \<Rightarrow> nat" where
  "bit_length n = (if n = 0 then 0 else Suc (bit_length (n div 2)))"

declare bit_length.simps [simp del]

definition to_double :: "nat \<Rightarrow> nat option" where
  "to_double m =
     (if m \<le> 2 ^ 53 then Some m
      else (let e = bit_length m - 53;
                q = m div 2 ^ e;
                r = m mod 2 ^ e;
                half = 2 ^ (e - 1);
                q' = (if r > half \<or> (r = half \<and> odd q) then q + 1 else q);
                v = q' * 2 ^ e
            in if v \<ge> 2 ^ 1024 then None else Some v))"

definition js_integer :: "bool \<Rightarrow> nat \<Rightarrow> js_val" where
  "js_integer neg m =
     (case to_double m of
        None \<Rightarrow> (if neg then JNegInfinity else JInfinity)
      | Some v \<Rightarrow> JNum (if neg then - int v else int v))"

text \<open>
  \<open>parseInt(s, 10)\<close>: leading white space is skipped, one sign is read, and the longest
  prefix of decimal digits is the value, as a Number; no digit gives \<open>NaN\<close>. The white
  space among the code units below 256 is TAB, LF, VT, FF, CR, SP and NBSP. Past 20
  significant digits the standard lets an implementation approximate the value before
  it is rounded; the model rounds the exact value. Minus zero is zero.
\<close>

definition is_space :: "char \<Rightarrow> bool" where
  "is_space c = (of_char c \<in> {9, 10, 11, 12, 13, 32, 160 :: nat})"

definition is_digit :: "char \<Rightarrow> bool" where
  "is_digit c = ((48::nat) \<le> of_char c \<and> of_char c \<le> (57::nat))"

definition digits_value :: "string \<Rightarrow> nat" where
  "digits_value ds = foldl (\<lambda>v c. 10 * v + (of_char c - 48)) 0 ds"

definition parseInt10 :: "js_val \<Rightarrow> js_val" where
  "parseInt10 v =
     (let s = dropWhile is_space (to_string v);
          neg = (s \<noteq> [] \<and> hd s = CHR ''-'');
          s' = (if s \<noteq> [] \<and> (hd s = CHR ''-'' \<or> hd s = CHR ''+'') then tl s else s);
          z = takeWhile is_digit s'
      in if z = [] then JNaN else js_integer neg (digits_value z))"

text \<open>
  A plain object used as \<open>Record<string, string>\<close>: keys in insertion order; an
  assignment to a key that exists replaces the value in place. What an object inherits
  from \<open>Object.prototype\<close> is left out.
\<close>

type_synonym js_record = "(string \<times> js_val) list"

definition get_prop :: "js_record \<Rightarrow> string \<Rightarrow> js_val" where
  "get_prop r k = (case map_of r k of None \<Rightarrow> JUndefined | Some v \<Rightarrow> v)"

definition set_prop :: "js_record \<Rightarrow> string \<Rightarrow> js_val \<Rightarrow> js_record" where
  "set_prop r k v = AList.update k v r"

text \<open>\<open>args[i]\<close> of an argument array: \<open>undefined\<close> past its end.\<close>

definition arg :: "js_val list \<Rightarrow> nat \<Rightarrow> js_val" where
  "arg args i = (if i < length args then args ! i else JUndefined)"

text \<open>\<open>Array.prototype.some\<close>: stops at the first element the callback accepts.\<close>

fun array_some :: "('a \<Rightarrow> bool) \<Rightarrow> 'a list \<Rightarrow> bool" where
  "array_some f [] = False"
| "array_some f (x # xs) = (if f x then True else array_some f xs)"


section \<open>The HttpClient integration: options and filters\<close>

text \<open>
  \<open>HttpStatusCodeRange = [number, number] | number\<close> and
  \<open>HttpRequestTarget = string | RegExp\<close>. A regular expression is its \<open>test\<close>, a
  predicate on strings (the \<open>lastIndex\<close> state of a global or sticky one is left out).
\<close>

datatype HttpStatusCodeRange = Single int | FromTo int int

datatype HttpRequestTarget = Literal string | Pattern "string \<Rightarrow> bool"

record HttpClientOptions =
  failedRequestStatusCodes :: "HttpStatusCodeRange list option"
  failedRequestTargets :: "HttpRequestTarget list option"

text \<open>
  The class: its options and the hub getter that \<open>setupOnce\<close> stores. The getter is
  taken to return the same hub at every call.
\<close>

record Dsn =
  host :: string

record Client =
  getDsn :: "Dsn option"

text \<open>
  The event schema (\<open>Event\<close> of @sentry/types), restricted to the fields
  \<open>_createEvent\<close> writes. A field that holds \<open>undefined\<close> is \<open>None\<close>.
\<close>

record Mechanism =
  mechanism_type :: string
  handled :: bool

record ExceptionValue =
  exception_type :: string
  exception_value :: string
  mechanism :: "Mechanism option"

record EventRequest =
  request_url :: string
  request_method :: js_val
  request_headers :: "js_record option"
  request_cookies :: "js_record option"

record ResponseContext =
  status_code :: int
  response_headers :: "js_record option"
  response_cookies :: "js_record option"
  body_size :: js_val

record SentryEvent =
  message :: string
  exception_values :: "ExceptionValue list"
  request :: EventRequest
  contexts_response :: ResponseContext

text \<open>
  The hub (\<open>Hub\<close> of @sentry/types) is an interface: \<open>captureEvent\<close> may throw
  (\<open>Some e\<close>) or return.
\<close>

record Hub =
  shouldSendDefaultPii :: bool
  getClient :: "Client option"
  captureEvent :: "SentryEvent \<Rightarrow> exn option"

record HttpClient =
  options :: HttpClientOptions
  getCurrentHub :: "Hub option"

text \<open>
  What the instrumentation does to the outside: calls of the hub, of the logger, of the
  native methods it wraps and of the application's own handler, and promise rejections
  that no handler receives. Every function below returns, beside its result, the calls
  it made, in order.
\<close>

datatype call =
    HubGetClient
  | HubShouldSendDefaultPii
  | HubCaptureEvent SentryEvent
  | LoggerLog string
  | LoggerWarn string exn
  | NativeOpen "js_val list"
  | NativeSetRequestHeader "js_val list"
  | AppOnloadend nat "js_val list"
  | UnhandledRejection exn

type_synonym calls = "call list"

text \<open>\<open>__DEBUG_BUILD__ && logger.log(msg)\<close>.\<close>

definition debug_log :: "bool \<Rightarrow> call \<Rightarrow> calls" where
  "debug_log DEBUG_BUILD entry = (if DEBUG_BUILD then [entry] else [])"

text \<open>
  The constructor: the defaults, overridden by every key the caller's object has (a key
  given as \<open>undefined\<close> overrides too). \<open>None\<close> is a key the caller left out.
\<close>

definition HttpClient_new ::
  "HttpStatusCodeRange list option option \<Rightarrow> HttpRequestTarget list option option \<Rightarrow> HttpClient"
where
  "HttpClient_new codes targets =
     \<lparr>options =
        \<lparr>failedRequestStatusCodes = (case codes of None \<Rightarrow> Some [FromTo 500 599] | Some v \<Rightarrow> v),
         failedRequestTargets = (case targets of None \<Rightarrow> Some [Pattern (\<lambda>s. True)] | Some v \<Rightarrow> v)\<rparr>,
      getCurrentHub = None\<rparr>"

definition setupOnce :: "HttpClient \<Rightarrow> Hub \<Rightarrow> HttpClient" where
  "setupOnce self hub = self\<lparr>getCurrentHub := Some hub\<rparr>"

definition isInGivenRequestTargets :: "HttpClient \<Rightarrow> string \<Rightarrow> bool" where
  "isInGivenRequestTargets self target =
     (case failedRequestTargets (options self) of
        None \<Rightarrow> False
      | Some targets \<Rightarrow>
          array_some
            (\<lambda>givenRequestTarget.
               case givenRequestTarget of
                 Literal s \<Rightarrow> str_includes target s
               | Pattern re \<Rightarrow> re target)
            targets)"

definition isInGivenStatusRanges :: "HttpClient \<Rightarrow> int \<Rightarrow> bool" where
  "isInGivenStatusRanges self status =
     (case failedRequestStatusCodes (options self) of
        None \<Rightarrow> False
      | Some ranges \<Rightarrow>
          array_some
            (\<lambda>range.
               case range of
                 Single n \<Rightarrow> n = status
               | FromTo b e \<Rightarrow> status \<ge> b \<and> status \<le> e)
            ranges)"

definition isSentryRequest :: "HttpClient \<Rightarrow> string \<Rightarrow> bool \<times> calls" where
  "isSentryRequest self url =
     (case getCurrentHub self of
        None \<Rightarrow> (False, [])
      | Some hub \<Rightarrow>
          (case getClient hub of
             None \<Rightarrow> (False, [HubGetClient])
           | Some client \<Rightarrow>
               (case getDsn client of
                  None \<Rightarrow> (False, [HubGetClient])
                | Some dsn \<Rightarrow> (str_includes url (host dsn), [HubGetClient]))))"

text \<open>The conjunction of the source, with the short circuit of \<open>&&\<close>.\<close>

definition shouldCaptureResponse :: "HttpClient \<Rightarrow> int \<Rightarrow> string \<Rightarrow> bool \<times> calls" where
  "shouldCaptureResponse self status url =
     (if isInGivenStatusRanges self status then
        if isInGivenRequestTargets self url then
          (case isSentryRequest self url of (sentry, cs) \<Rightarrow> (\<not> sentry, cs))
        else (False, [])
      else (False, []))"

definition getResponseSizeFromHeaders :: "js_record option \<Rightarrow> js_val" where
  "getResponseSizeFromHeaders headers =
     (case headers of
        None \<Rightarrow> JUndefined
      | Some h \<Rightarrow>
          (let contentLength = js_or (get_prop h ''Content-Length'') (get_prop h ''content-length'')
           in if truthy contentLength then parseInt10 contentLength else JUndefined))"

text \<open>
  \<open>const [key, value] = parts\<close> on the result of a \<open>split\<close>, then \<open>acc[key] = value\<close>.
\<close>

definition assign_pair :: "js_record \<Rightarrow> string list \<Rightarrow> js_record" where
  "assign_pair acc parts =
     set_prop acc
       (case parts of [] \<Rightarrow> ''undefined'' | key # rest \<Rightarrow> key)
       (case parts of key # v # rest \<Rightarrow> JStr v | _ \<Rightarrow> JUndefined)"

definition parseCookieString :: "string \<Rightarrow> js_record" where
  "parseCookieString cookieString =
     foldl (\<lambda>acc cookie. assign_pair acc (split cookie ''='')) [] (split cookieString ''; '')"

text \<open>
  \<open>Headers\<close> of the Fetch API, as the pairs \<open>(key, value)\<close> that its \<open>forEach\<close> visits.
\<close>

definition extractFetchHeaders :: "(string \<times> string) list \<Rightarrow> js_record" where
  "extractFetchHeaders headers = foldl (\<lambda>result (key, v). set_prop result key (JStr v)) [] headers"

text \<open>
  An \<open>XMLHttpRequest\<close> when its response has arrived: the two fields and the two
  methods the handler reads. A method may throw.
\<close>

record XHR =
  xhr_status :: int
  responseURL :: string
  getResponseHeader :: "string \<Rightarrow> exn + js_val"
  getAllResponseHeaders :: "exn + js_val"

definition CRLF :: string where
  "CRLF = [CHR 0x0D, CHR 0x0A]"

text \<open>A method call on a value that is not a string throws a \<open>TypeError\<close>.\<close>

definition getXHRResponseHeaders :: "XHR \<Rightarrow> exn + js_record" where
  "getXHRResponseHeaders xhr =
     (case getAllResponseHeaders xhr of
        Inl e \<Rightarrow> Inl e
      | Inr headers \<Rightarrow>
          if \<not> truthy headers then Inr []
          else (case headers of
                  JStr s \<Rightarrow>
                    Inr (foldl (\<lambda>acc line. assign_pair acc (split line '': '')) [] (split s CRLF))
                | _ \<Rightarrow> Inl (TypeError ''headers.split is not a function'')))"

record EventData =
  data_url :: string
  data_method :: js_val
  data_status :: int
  data_responseHeaders :: "js_record option"
  data_responseCookies :: "js_record option"
  data_requestHeaders :: "js_record option"
  data_requestCookies :: "js_record option"

text \<open>
  Modelled from the spec: \<open>addExceptionMechanism\<close> of @sentry/utils is not under src/.
  It sets the mechanism of the event's first exception value: the type the caller gives
  replaces the default \<open>generic\<close>, and \<open>handled\<close> stays what it was, true by default.
\<close>

definition addExceptionMechanism :: "SentryEvent \<Rightarrow> string \<Rightarrow> SentryEvent" where
  "addExceptionMechanism event ty =
     (case exception_values event of
        [] \<Rightarrow> event
      | firstException # rest \<Rightarrow>
          event\<lparr>exception_values :=
            firstException\<lparr>mechanism :=
              Some \<lparr>mechanism_type = ty,
                    handled = (case mechanism firstException of None \<Rightarrow> True | Some m \<Rightarrow> handled m)\<rparr>\<rparr>
            # rest\<rparr>)"

definition createEvent :: "EventData \<Rightarrow> SentryEvent" where
  "createEvent data =
     (let message = ''HTTP Client Error with status code: '' @ to_string (JNum (data_status data));
          event =
            \<lparr>message = message,
             exception_values =
               [\<lparr>exception_type = ''Error'', exception_value = message, mechanism = None\<rparr>],
             request =
               \<lparr>request_url = data_url data,
                request_method = data_method data,
                request_headers = data_requestHeaders data,
                request_cookies = data_requestCookies data\<rparr>,
             contexts_response =
               \<lparr>status_code = data_status data,
                response_headers = data_responseHeaders data,
                response_cookies = data_responseCookies data,
                body_size = getResponseSizeFromHeaders (data_responseHeaders data)\<rparr>\<rparr>
      in addExceptionMechanism event ''http.client'')"


section \<open>The response handlers\<close>

text \<open>\<open>if (cookieString) { cookies = this._parseCookieString(cookieString); }\<close>\<close>

definition cookies_of :: "js_val \<Rightarrow> exn + js_record option" where
  "cookies_of cookieString =
     (if truthy cookieString then
        (case cookieString of
           JStr s \<Rightarrow> Inr (Some (parseCookieString s))
         | _ \<Rightarrow> Inl (TypeError ''cookieString.split is not a function''))
      else Inr None)"

text \<open>
  The callback of the \<open>map\<close> in \<open>_fetchResponseHandler\<close>: the headers of one object and,
  inside its \<open>try\<close>, the cookies read from them.
\<close>

definition fetch_headers_cookies ::
  "bool \<Rightarrow> string \<Rightarrow> (string \<times> string) list
     \<Rightarrow> (js_record option \<times> js_record option) \<times> calls"
where
  "fetch_headers_cookies DEBUG_BUILD cookieHeader obj_headers =
     (let headers = extractFetchHeaders obj_headers;
          cookieString =
            js_or (js_or (get_prop headers cookieHeader) (get_prop headers (toLowerCase cookieHeader)))
              JUndefined
      in case cookies_of cookieString of
           Inl e \<Rightarrow>
             ((Some headers, None),
              debug_log DEBUG_BUILD
                (LoggerLog (''Could not extract cookies from header '' @ cookieHeader)))
         | Inr cookies \<Rightarrow> ((Some headers, cookies), []))"

text \<open>
  The Fetch API objects: what \<open>new Request(requestInfo, requestInit)\<close> builds (the
  constructor is the platform's and may throw), and a response.
\<close>

record FetchRequest =
  req_url :: string
  req_method :: string
  req_headers :: "(string \<times> string) list"

record Response =
  resp_status :: int
  resp_url :: string
  resp_headers :: "(string \<times> string) list"

definition fetchResponseHandler ::
  "bool \<Rightarrow> (js_val \<Rightarrow> js_val \<Rightarrow> exn + FetchRequest) \<Rightarrow> HttpClient
     \<Rightarrow> js_val \<Rightarrow> Response \<Rightarrow> js_val \<Rightarrow> (exn + unit) \<times> calls"
where
  "fetchResponseHandler DEBUG_BUILD newRequest self requestInfo response requestInit =
     (case getCurrentHub self of
        None \<Rightarrow> (Inr (), [])
      | Some hub \<Rightarrow>
          (case shouldCaptureResponse self (resp_status response) (resp_url response) of
             (False, cs1) \<Rightarrow> (Inr (), cs1)
           | (True, cs1) \<Rightarrow>
               (case newRequest requestInfo requestInit of
                  Inl e \<Rightarrow> (Inl e, cs1)
                | Inr req \<Rightarrow>
                    (let extracted =
                           (if shouldSendDefaultPii hub then
                              (case fetch_headers_cookies DEBUG_BUILD ''Cookie'' (req_headers req) of
                                 (ofRequest, cs2) \<Rightarrow>
                                   (case fetch_headers_cookies DEBUG_BUILD ''Set-Cookie''
                                           (resp_headers response) of
                                      (ofResponse, cs3) \<Rightarrow> (ofRequest, ofResponse, cs2 @ cs3)))
                            else ((None, None), (None, None), []))
                     in case extracted of
                          ((requestHeaders, requestCookies), (responseHeaders, responseCookies), cs4) \<Rightarrow>
                            (let event =
                                   createEvent
                                     \<lparr>data_url = req_url req,
                                      data_method = JStr (req_method req),
                                      data_status = resp_status response,
                                      data_responseHeaders = responseHeaders,
                                      data_responseCookies = responseCookies,
                                      data_requestHeaders = requestHeaders,
                                      data_requestCookies = requestCookies\<rparr>;
                                 cs = cs1 @ [HubShouldSendDefaultPii] @ cs4 @ [HubCaptureEvent event]
                             in (case captureEvent hub event of
                                   None \<Rightarrow> (Inr (), cs)
                                 | Some e \<Rightarrow> (Inl e, cs)))))))"

text \<open>The two \<open>try\<close> blocks of \<open>_xhrResponseHandler\<close>.\<close>

definition xhr_responseCookies :: "bool \<Rightarrow> XHR \<Rightarrow> js_record option \<times> calls" where
  "xhr_responseCookies DEBUG_BUILD xhr =
     (let attempt =
            (case getResponseHeader xhr ''Set-Cookie'' of
               Inl e \<Rightarrow> Inl e
             | Inr a \<Rightarrow>
                 if truthy a then cookies_of a
                 else (case getResponseHeader xhr ''set-cookie'' of
                         Inl e \<Rightarrow> Inl e
                       | Inr b \<Rightarrow> cookies_of (js_or b JUndefined)))
      in case attempt of
           Inl e \<Rightarrow>
             (None,
              debug_log DEBUG_BUILD (LoggerLog ''Could not extract cookies from response headers''))
         | Inr cookies \<Rightarrow> (cookies, []))"

definition xhr_responseHeaders :: "bool \<Rightarrow> XHR \<Rightarrow> js_record option \<times> calls" where
  "xhr_responseHeaders DEBUG_BUILD xhr =
     (case getXHRResponseHeaders xhr of
        Inl e \<Rightarrow>
          (None, debug_log DEBUG_BUILD (LoggerLog ''Could not extract headers from response''))
      | Inr headers \<Rightarrow> (Some headers, []))"

definition xhrResponseHandler ::
  "bool \<Rightarrow> HttpClient \<Rightarrow> XHR \<Rightarrow> js_val \<Rightarrow> js_record \<Rightarrow> (exn + unit) \<times> calls"
where
  "xhrResponseHandler DEBUG_BUILD self xhr method headers =
     (case getCurrentHub self of
        None \<Rightarrow> (Inr (), [])
      | Some hub \<Rightarrow>
          (case shouldCaptureResponse self (xhr_status xhr) (responseURL xhr) of
             (False, cs1) \<Rightarrow> (Inr (), cs1)
           | (True, cs1) \<Rightarrow>
               (let extracted =
                      (if shouldSendDefaultPii hub then
                         (case xhr_responseCookies DEBUG_BUILD xhr of
                            (responseCookies, cs2) \<Rightarrow>
                              (case xhr_responseHeaders DEBUG_BUILD xhr of
                                 (responseHeaders, cs3) \<Rightarrow>
                                   (Some headers, responseCookies, responseHeaders, cs2 @ cs3)))
                       else (None, None, None, []))
                in case extracted of
                     (requestHeaders, responseCookies, responseHeaders, cs4) \<Rightarrow>
                       (let event =
                              createEvent
                                \<lparr>data_url = responseURL xhr,
                                 data_method = method,
                                 data_status = xhr_status xhr,
                                 data_responseHeaders = responseHeaders,
                                 data_responseCookies = responseCookies,
                                 data_requestHeaders = requestHeaders,
                                 data_requestCookies = None\<rparr>;
                            cs = cs1 @ [HubShouldSendDefaultPii] @ cs4 @ [HubCaptureEvent event]
                        in (case captureEvent hub event of
                              None \<Rightarrow> (Inr (), cs)
                            | Some e \<Rightarrow> (Inl e, cs))))))"

text \<open>The events handed to \<open>hub.captureEvent\<close>, among calls.\<close>

fun captured :: "calls \<Rightarrow> SentryEvent list" where
  "captured [] = []"
| "captured (HubCaptureEvent ev # cs) = ev # captured cs"
| "captured (c # cs) = captured cs"


section \<open>The wrappers\<close>

text \<open>
  A promise by its outcome. The reactions that \<open>then\<close> and \<open>catch\<close> register run once
  the promise settles; the model counts their calls with those of the wrapper.
\<close>

datatype 'a promise = Pending | Fulfilled 'a | Rejected exn

text \<open>
  The function \<open>_wrapFetch\<close> installs. The chain
  \<open>responsePromise.then(handler).catch(rethrow)\<close> is a promise of its own: a rejection
  of it (of the original promise, or an exception of the handler) is thrown again by the
  \<open>catch\<close> callback and reaches no further handler.
\<close>

definition wrapped_fetch ::
  "bool \<Rightarrow> (js_val \<Rightarrow> js_val \<Rightarrow> exn + FetchRequest) \<Rightarrow> HttpClient
     \<Rightarrow> (js_val \<Rightarrow> js_val list \<Rightarrow> exn + Response promise)
     \<Rightarrow> js_val \<Rightarrow> js_val list \<Rightarrow> (exn + Response promise) \<times> calls"
where
  "wrapped_fetch DEBUG_BUILD newRequest self originalFetch this args =
     (let requestInfo = arg args 0;
          requestInit = arg args 1
      in case originalFetch this args of
           Inl e \<Rightarrow> (Inl e, [])
         | Inr responsePromise \<Rightarrow>
             (Inr responsePromise,
              (case responsePromise of
                 Pending \<Rightarrow> []
               | Fulfilled response \<Rightarrow>
                   (case fetchResponseHandler DEBUG_BUILD newRequest self requestInfo response
                           requestInit of
                      (Inl e, cs) \<Rightarrow> cs @ [UnhandledRejection e]
                    | (Inr u, cs) \<Rightarrow> cs)
               | Rejected error \<Rightarrow> [UnhandledRejection error])))"

text \<open>
  An \<open>XMLHttpRequest\<close> object as \<open>_wrapXHR\<close> changes it: the two properties that
  \<open>fill\<close> replaces hold closures, written as data. A closure made by one call of the
  wrapped \<open>open\<close> holds that call's \<open>method\<close>, the address of its \<open>headers\<close> object
  and the function it replaced.
\<close>

datatype setRequestHeader_fn =
    NativeSetRequestHeaderFn
  | WrappedSetRequestHeader nat setRequestHeader_fn

datatype onloadend_fn =
    NoHandler
  | AppHandler nat
  | WrappedOnloadend js_val nat onloadend_fn

record XHRObject =
  setRequestHeader_prop :: setRequestHeader_fn
  onloadend_prop :: onloadend_fn
  headers_objects :: "js_record list"

text \<open>
  The platform: how the native methods and the application's handlers answer a call
  (\<open>None\<close>: returns \<open>undefined\<close>).
\<close>

record Platform =
  native_open :: "js_val list \<Rightarrow> exn option"
  native_setRequestHeader :: "js_val list \<Rightarrow> exn option"
  app_onloadend :: "nat \<Rightarrow> js_val list \<Rightarrow> exn + js_val"

definition returns :: "exn option \<Rightarrow> exn + js_val" where
  "returns r = (case r of None \<Rightarrow> Inr JUndefined | Some e \<Rightarrow> Inl e)"

text \<open>
  Modelled from the spec: \<open>fill(source, name, replacementFactory)\<close> of @sentry/utils is
  not under src/. It replaces the property by \<open>replacementFactory(original)\<close>; both
  properties exist on every \<open>XMLHttpRequest\<close>.
\<close>

definition fill :: "'f \<Rightarrow> ('f \<Rightarrow> 'f) \<Rightarrow> 'f" where
  "fill original replacementFactory = replacementFactory original"

text \<open>The replacement of \<open>XMLHttpRequest.prototype.open\<close>.\<close>

definition wrapped_open ::
  "Platform \<Rightarrow> XHRObject \<Rightarrow> js_val list \<Rightarrow> (exn + js_val) \<times> XHRObject \<times> calls"
where
  "wrapped_open pf xhr openArgs =
     (let method = arg openArgs 0;
          headers = length (headers_objects xhr);
          xhr1 = xhr\<lparr>headers_objects := headers_objects xhr @ [[]]\<rparr>;
          xhr2 = xhr1\<lparr>setRequestHeader_prop :=
                   fill (setRequestHeader_prop xhr1) (WrappedSetRequestHeader headers)\<rparr>;
          xhr3 = xhr2\<lparr>onloadend_prop :=
                   fill (onloadend_prop xhr2) (WrappedOnloadend method headers)\<rparr>
      in (returns (native_open pf openArgs), xhr3, [NativeOpen openArgs]))"

text \<open>Calling what the property \<open>setRequestHeader\<close> holds.\<close>

fun call_setRequestHeader ::
  "Platform \<Rightarrow> setRequestHeader_fn \<Rightarrow> js_val list \<Rightarrow> js_record list
     \<Rightarrow> (exn + js_val) \<times> js_record list \<times> calls"
where
  "call_setRequestHeader pf NativeSetRequestHeaderFn args objs =
     (returns (native_setRequestHeader pf args), objs, [NativeSetRequestHeader args])"
| "call_setRequestHeader pf (WrappedSetRequestHeader headers originalSetRequestHeader) args objs =
     (let header = arg args 0;
          v = arg args 1;
          objs' = (if headers < length objs
                   then objs[headers := set_prop (objs ! headers) (to_string header) v]
                   else objs)
      in call_setRequestHeader pf originalSetRequestHeader args objs')"


text \<open>
  The browser fires \<open>loadend\<close>: it calls what the property \<open>onloadend\<close> holds, if that
  is a function.
\<close>

definition headers_at :: "js_record list \<Rightarrow> nat \<Rightarrow> js_record" where
  "headers_at objs a = (if a < length objs then objs ! a else [])"

text \<open>The \<open>try\<close> in the replacement of \<open>onloadend\<close>: the handler's calls, then the warning.\<close>

definition guarded_xhrResponseHandler ::
  "bool \<Rightarrow> HttpClient \<Rightarrow> XHR \<Rightarrow> js_val \<Rightarrow> js_record \<Rightarrow> calls"
where
  "guarded_xhrResponseHandler DEBUG_BUILD self xhr method headers =
     (case xhrResponseHandler DEBUG_BUILD self xhr method headers of
        (Inl e, cs) \<Rightarrow>
          cs @ debug_log DEBUG_BUILD
                 (LoggerWarn ''Error while extracting response event form XHR response'' e)
      | (Inr u, cs) \<Rightarrow> cs)"

fun call_onloadend ::
  "bool \<Rightarrow> Platform \<Rightarrow> HttpClient \<Rightarrow> XHR \<Rightarrow> js_record list \<Rightarrow> onloadend_fn \<Rightarrow> js_val list
     \<Rightarrow> (exn + js_val) \<times> calls"
where
  "call_onloadend DEBUG_BUILD pf self xhr objs NoHandler onloadendArgs = (Inr JUndefined, [])"
| "call_onloadend DEBUG_BUILD pf self xhr objs (AppHandler h) onloadendArgs =
     (app_onloadend pf h onloadendArgs, [AppOnloadend h onloadendArgs])"
| "call_onloadend DEBUG_BUILD pf self xhr objs (WrappedOnloadend method headers original)
       onloadendArgs =
     (let cs = guarded_xhrResponseHandler DEBUG_BUILD self xhr method (headers_at objs headers)
      in if original \<noteq> NoHandler
         then (case call_onloadend DEBUG_BUILD pf self xhr objs original onloadendArgs of
                 (r, cs') \<Rightarrow> (r, cs @ cs'))
         else (Inr JUndefined, cs))"


section \<open>handleDom\<close>

text \<open>
  \<open>handlerData\<close> has type \<open>any\<close>. The model tells \<open>null\<close> and \<open>undefined\<close>, on which
  every property read throws, from an object with the properties \<open>event\<close> and \<open>name\<close>.
  \<open>event\<close> is absent (\<open>None\<close>) or an event object: reading its \<open>target\<close> throws or
  gives a node or nothing, and the event itself stands in as the node then. \<open>name\<close> is a
  value the template literal can convert to a string (an object with a \<open>toString\<close> of its
  own counts as the string it gives), or, in \<open>NameThrows\<close>, one it cannot: reading it
  throws, or it is a Symbol or an object whose conversion to a string throws.
\<close>

datatype 'n DomEvent = DomEvent "exn + 'n option" 'n

datatype 'n HandlerData =
    Nullish
  | HandlerData "'n DomEvent option" js_val
  | NameThrows "'n DomEvent option" exn

text \<open>
  What the function takes from outside: \<open>htmlTreeAsString\<close> of @sentry/utils (its caller
  expects it to throw), \<open>record.mirror.getId\<close> of rrweb and the clock in milliseconds.
\<close>

record 'n DomEnv =
  htmlTreeAsString :: "'n \<Rightarrow> exn + string"
  mirror_getId :: "'n \<Rightarrow> int"
  getTime :: int

record BreadcrumbData =
  nodeId :: js_val

record Breadcrumb =
  timestamp :: rat
  breadcrumb_type :: string
  category :: string
  breadcrumb_message :: string
  breadcrumb_data :: BreadcrumbData

text \<open>
  The \<open>try\<close> block and its \<open>catch\<close>: the variables \<open>target\<close> and \<open>targetNode\<close> after
  them. \<open>targetNode\<close> keeps its value when \<open>htmlTreeAsString\<close> throws.
\<close>

definition target_of_event :: "'n DomEnv \<Rightarrow> 'n DomEvent option \<Rightarrow> string \<times> 'n option" where
  "target_of_event env event =
     (case event of
        None \<Rightarrow> (''<unknown>'', None)
      | Some (DomEvent target_read event_node) \<Rightarrow>
          (case target_read of
             Inl e \<Rightarrow> (''<unknown>'', None)
           | Inr t \<Rightarrow>
               (let targetNode = (case t of Some n \<Rightarrow> n | None \<Rightarrow> event_node)
                in case htmlTreeAsString env targetNode of
                     Inl e \<Rightarrow> (''<unknown>'', Some targetNode)
                   | Inr target \<Rightarrow> (target, Some targetNode))))"

definition extract_target :: "'n DomEnv \<Rightarrow> 'n HandlerData \<Rightarrow> string \<times> 'n option" where
  "extract_target env handlerData =
     (case handlerData of
        Nullish \<Rightarrow> (''<unknown>'', None)
      | HandlerData event name \<Rightarrow> target_of_event env event
      | NameThrows event e \<Rightarrow> target_of_event env event)"

definition handleDom :: "'n DomEnv \<Rightarrow> 'n HandlerData \<Rightarrow> exn + Breadcrumb option" where
  "handleDom env handlerData =
     (case extract_target env handlerData of
        (target, targetNode) \<Rightarrow>
          if length target = 0 then Inr None
          else (case handlerData of
                  Nullish \<Rightarrow> Inl (TypeError ''Cannot read properties of undefined (reading name)'')
                | NameThrows event e \<Rightarrow> Inl e
                | HandlerData event name \<Rightarrow>
                    Inr (Some
                      \<lparr>timestamp = of_int (getTime env) / 1000,
                       breadcrumb_type = ''default'',
                       category = ''ui.'' @ to_string name,
                       breadcrumb_message = target,
                       breadcrumb_data =
                         \<lparr>nodeId =
                            (case targetNode of
                               None \<Rightarrow> JUndefined
                             | Some n \<Rightarrow> JNum (mirror_getId env n))\<rparr>\<rparr>)))"


section \<open>The breadcrumb ring\<close>

text \<open>
  Arrays live in a store, addressed by their index, so that a snapshot and the ring's
  own buffer are two arrays.
\<close>

type_synonym 'b store = "'b list list"

text \<open>
  Modelled from the spec: the BreadcrumbRing is not under src/. It is a "fixed-capacity,
  insertion-ordered ring buffer", "capacity N (configurable, default 100); oldest evicted
  on overflow (FIFO)"; "capacity \<ge> 0 (0 disables breadcrumbs, snapshot always empty)".
\<close>

record BreadcrumbRing =
  capacity :: nat
  buffer :: nat

definition new_ring :: "nat \<Rightarrow> 'b store \<Rightarrow> BreadcrumbRing \<times> 'b store" where
  "new_ring N st = (\<lparr>capacity = N, buffer = length st\<rparr>, st @ [[]])"

text \<open>
  Modelled from the spec: \<open>add\<close> of the BreadcrumbRing is not under src/.
  "add(breadcrumb) appends, evicting oldest if at capacity"; it changes the ring's buffer
  in place.
\<close>

definition ring_add :: "BreadcrumbRing \<Rightarrow> 'b \<Rightarrow> 'b store \<Rightarrow> 'b store" where
  "ring_add ring b st =
     (if capacity ring = 0 then st
      else (let items = st ! buffer ring;
                kept = (if length items \<ge> capacity ring then tl items else items)
            in st[buffer ring := kept @ [b]]))"

text \<open>
  Modelled from the spec: \<open>snapshot\<close> of the BreadcrumbRing is not under src/.
  "snapshot() returns an independent ordered copy (sequence of Breadcrumb, oldest-first)":
  a new array, whose address is returned.
\<close>

definition snapshot :: "BreadcrumbRing \<Rightarrow> 'b store \<Rightarrow> nat \<times> 'b store" where
  "snapshot ring st = (length st, st @ [st ! buffer ring])"

text \<open>
  Modelled from the spec: \<open>addBreadcrumb\<close> of the Pipeline is not under src/. It "first
  applies a configurable max-breadcrumbs truncation and an optional before-add
  filter/transform callback (may veto by returning null) before delegating to
  BreadcrumbRing.add"; the truncation is the ring's capacity.
\<close>

definition addBreadcrumb ::
  "('b \<Rightarrow> 'b option) option \<Rightarrow> BreadcrumbRing \<Rightarrow> 'b \<Rightarrow> 'b store \<Rightarrow> 'b store"
where
  "addBreadcrumb beforeBreadcrumb ring b st =
     (case beforeBreadcrumb of
        None \<Rightarrow> ring_add ring b st
      | Some f \<Rightarrow> (case f b of None \<Rightarrow> st | Some b' \<Rightarrow> ring_add ring b' st))"

text \<open>A sequence of \<open>addBreadcrumb\<close> calls, first to last.\<close>

fun addBreadcrumbs ::
  "('b \<Rightarrow> 'b option) option \<Rightarrow> BreadcrumbRing \<Rightarrow> 'b list \<Rightarrow> 'b store \<Rightarrow> 'b store"
where
  "addBreadcrumbs beforeBreadcrumb ring [] st = st"
| "addBreadcrumbs beforeBreadcrumb ring (b # bs) st =
     addBreadcrumbs beforeBreadcrumb ring bs (addBreadcrumb beforeBreadcrumb ring b st)"

text \<open>The breadcrumbs that reach the ring: those the callback lets through, as it returns them.\<close>

definition accepted :: "('b \<Rightarrow> 'b option) option \<Rightarrow> 'b list \<Rightarrow> 'b list" where
  "accepted beforeBreadcrumb bs =
     (case beforeBreadcrumb of None \<Rightarrow> bs | Some f \<Rightarrow> List.map_filter f bs)"


section \<open>Example inputs\<close>

text \<open>
  A hub whose client has the DSN host \<open>sentry.io\<close>, the integration with its default
  options set up on it, and responses to look at.
\<close>

definition example_hub :: "bool \<Rightarrow> Hub" where
  "example_hub pii =
     \<lparr>shouldSendDefaultPii = pii,
      getClient = Some \<lparr>getDsn = Some \<lparr>host = ''sentry.io''\<rparr>\<rparr>,
      captureEvent = (\<lambda>ev. None)\<rparr>"

definition example_self :: "bool \<Rightarrow> HttpClient" where
  "example_self pii = setupOnce (HttpClient_new None None) (example_hub pii)"

definition example_xhr :: "int \<Rightarrow> string \<Rightarrow> string \<Rightarrow> XHR" where
  "example_xhr status url cookie =
     \<lparr>xhr_status = status,
      responseURL = url,
      getResponseHeader = (\<lambda>name. Inr (if name = ''Set-Cookie'' then JStr cookie else JNull)),
      getAllResponseHeaders = Inr (JStr (''Content-Length: 42'' @ CRLF @ ''X-Id: 7'' @ CRLF))\<rparr>"

definition example_response :: "int \<Rightarrow> string \<Rightarrow> (string \<times> string) list \<Rightarrow> Response" where
  "example_response status url headers =
     \<lparr>resp_status = status, resp_url = url, resp_headers = headers\<rparr>"

text \<open>
  The integration on a hub whose \<open>captureEvent\<close> throws, and a platform whose native
  methods return and whose application handlers return a number.
\<close>

definition example_throwing_self :: HttpClient where
  "example_throwing_self =
     setupOnce (HttpClient_new None None)
       ((example_hub False)\<lparr>captureEvent := (\<lambda>ev. Some (Thrown ''captureEvent failed''))\<rparr>)"

definition example_platform :: Platform where
  "example_platform =
     \<lparr>native_open = (\<lambda>args. None),
      native_setRequestHeader = (\<lambda>args. None),
      app_onloadend = (\<lambda>h args. Inr (JNum 7))\<rparr>"


text \<open>A \<open>Request\<close> constructor that takes the URL string and the headers it is told.\<close>

definition example_newRequest ::
  "(string \<times> string) list \<Rightarrow> js_val \<Rightarrow> js_val \<Rightarrow> exn + FetchRequest"
where
  "example_newRequest headers requestInfo requestInit =
     (case requestInfo of
        JStr url \<Rightarrow> Inr \<lparr>req_url = url, req_method = ''GET'', req_headers = headers\<rparr>
      | _ \<Rightarrow> Inl (TypeError ''Failed to construct Request''))"


text \<open>
  An environment for \<open>handleDom\<close> with numbers as nodes: node 0 has the empty
  description, describing node 1 throws, every other node is a button; the clock shows
  1500 ms.
\<close>

definition example_dom_env :: "nat DomEnv" where
  "example_dom_env =
     \<lparr>htmlTreeAsString =
        (\<lambda>n. if n = 0 then Inr [] else if n = 1 then Inl (Thrown ''detached'')
             else Inr ''body > button''),
      mirror_getId = (\<lambda>n. int n),
      getTime = 1500\<rparr>"


section \<open>Strings and arrays\<close>

lemma starts_with_iff: "starts_with s p \<longleftrightarrow> (\<exists>q. s = p @ q)"
  by (induction s p rule: starts_with.induct) auto

lemma str_includes_iff: "str_includes s needle \<longleftrightarrow> (\<exists>p q. s = p @ needle @ q)"
proof (induction s)
  case Nil
  then show ?case by auto
next
  case (Cons c cs)
  show ?case
  proof
    assume "str_includes (c # cs) needle"
    then consider "starts_with (c # cs) needle" | "str_includes cs needle" by auto
    then show "\<exists>p q. c # cs = p @ needle @ q"
    proof cases
      case 1
      then obtain q where "c # cs = needle @ q" by (auto simp: starts_with_iff)
      then have "c # cs = [] @ needle @ q" by simp
      then show ?thesis by blast
    next
      case 2
      then obtain p q where "cs = p @ needle @ q" using Cons.IH by blast
      then have "c # cs = (c # p) @ needle @ q" by simp
      then show ?thesis by blast
    qed
  next
    assume "\<exists>p q. c # cs = p @ needle @ q"
    then obtain p q where eq: "c # cs = p @ needle @ q" by blast
    show "str_includes (c # cs) needle"
    proof (cases p)
      case Nil
      with eq have "starts_with (c # cs) needle" by (auto simp: starts_with_iff)
      then show ?thesis by simp
    next
      case (Cons a p')
      with eq have "cs = p' @ needle @ q" by simp
      then have "str_includes cs needle" using Cons.IH by blast
      then show ?thesis by simp
    qed
  qed
qed

lemma array_some_iff: "array_some f xs \<longleftrightarrow> (\<exists>x\<in>set xs. f x)"
  by (induction xs) auto


section \<open>The filters\<close>

text \<open>
  C2. A numeric entry of \<open>failedRequestStatusCodes\<close> matches exactly the status equal to
  it, and an entry \<open>[begin, end]\<close> every status with \<open>begin \<le> status \<le> end\<close>; a string
  entry of \<open>failedRequestTargets\<close> matches every URL that contains it, and a regular
  expression every URL its test accepts. A status or a URL matches its list when some
  entry matches, and a list that is \<open>undefined\<close> matches nothing.
\<close>

theorem C2_filter_matching:
  "isInGivenStatusRanges self status =
     (\<exists>ranges. failedRequestStatusCodes (options self) = Some ranges \<and>
        (Single status \<in> set ranges \<or>
         (\<exists>b e. FromTo b e \<in> set ranges \<and> b \<le> status \<and> status \<le> e)))
   \<and> isInGivenRequestTargets self url =
     (\<exists>targets. failedRequestTargets (options self) = Some targets \<and>
        ((\<exists>s. Literal s \<in> set targets \<and> (\<exists>p q. url = p @ s @ q)) \<or>
         (\<exists>re. Pattern re \<in> set targets \<and> re url)))"
proof
  show "isInGivenStatusRanges self status =
     (\<exists>ranges. failedRequestStatusCodes (options self) = Some ranges \<and>
        (Single status \<in> set ranges \<or>
         (\<exists>b e. FromTo b e \<in> set ranges \<and> b \<le> status \<and> status \<le> e)))"
  proof (cases "failedRequestStatusCodes (options self)")
    case None
    then show ?thesis by (simp add: isInGivenStatusRanges_def)
  next
    case (Some ranges)
    have "(\<exists>r\<in>set ranges. case r of Single n \<Rightarrow> n = status | FromTo b e \<Rightarrow> b \<le> status \<and> status \<le> e)
          = (Single status \<in> set ranges \<or> (\<exists>b e. FromTo b e \<in> set ranges \<and> b \<le> status \<and> status \<le> e))"
    proof -
      have "(case r of Single n \<Rightarrow> n = status | FromTo b e \<Rightarrow> b \<le> status \<and> status \<le> e)
            = (r = Single status \<or> (\<exists>b e. r = FromTo b e \<and> b \<le> status \<and> status \<le> e))" for r
        by (cases r) auto
      then show ?thesis by (simp only: Bex_def) blast
    qed
    with Some show ?thesis by (simp add: isInGivenStatusRanges_def array_some_iff)
  qed
  show "isInGivenRequestTargets self url =
     (\<exists>targets. failedRequestTargets (options self) = Some targets \<and>
        ((\<exists>s. Literal s \<in> set targets \<and> (\<exists>p q. url = p @ s @ q)) \<or>
         (\<exists>re. Pattern re \<in> set targets \<and> re url)))"
  proof (cases "failedRequestTargets (options self)")
    case None
    then show ?thesis by (simp add: isInGivenRequestTargets_def)
  next
    case (Some targets)
    have "(\<exists>t\<in>set targets. case t of Literal s \<Rightarrow> str_includes url s | Pattern re \<Rightarrow> re url)
          = ((\<exists>s. Literal s \<in> set targets \<and> (\<exists>p q. url = p @ s @ q)) \<or>
             (\<exists>re. Pattern re \<in> set targets \<and> re url))"
    proof -
      have "(case t of Literal s \<Rightarrow> str_includes url s | Pattern re \<Rightarrow> re url)
            = ((\<exists>s. t = Literal s \<and> (\<exists>p q. url = p @ s @ q)) \<or> (\<exists>re. t = Pattern re \<and> re url))" for t
        by (cases t) (auto simp: str_includes_iff)
      then show ?thesis by (simp only: Bex_def) blast
    qed
    with Some show ?thesis by (simp add: isInGivenRequestTargets_def array_some_iff)
  qed
qed


section \<open>The response handlers, by cases\<close>

lemma captured_append: "captured (cs @ cs') = captured cs @ captured cs'"
  by (induction cs rule: captured.induct) auto

lemma isSentryRequest_calls:
  "snd (isSentryRequest self url) = (case getCurrentHub self of None \<Rightarrow> [] | Some hub \<Rightarrow> [HubGetClient])"
  by (simp add: isSentryRequest_def split: option.splits)

lemma shouldCaptureResponse_fst:
  "fst (shouldCaptureResponse self status url) \<longleftrightarrow>
     isInGivenStatusRanges self status \<and> isInGivenRequestTargets self url
     \<and> \<not> fst (isSentryRequest self url)"
  by (simp add: shouldCaptureResponse_def split: prod.splits)

lemma shouldCaptureResponse_snd:
  "snd (shouldCaptureResponse self status url) =
     (if isInGivenStatusRanges self status \<and> isInGivenRequestTargets self url
      then snd (isSentryRequest self url) else [])"
  by (simp add: shouldCaptureResponse_def split: prod.splits)

lemma captured_shouldCaptureResponse: "captured (snd (shouldCaptureResponse self status url)) = []"
  by (simp add: shouldCaptureResponse_snd isSentryRequest_calls split: option.splits)

lemma captured_debug_log_LoggerLog: "captured (debug_log D (LoggerLog m)) = []"
  by (simp add: debug_log_def)

lemma captured_xhr_responseCookies: "captured (snd (xhr_responseCookies D xhr)) = []"
  by (simp add: xhr_responseCookies_def Let_def captured_debug_log_LoggerLog split: sum.splits)

lemma captured_xhr_responseHeaders: "captured (snd (xhr_responseHeaders D xhr)) = []"
  by (simp add: xhr_responseHeaders_def captured_debug_log_LoggerLog split: sum.splits)


text \<open>What each handler returns and calls, by the outcome of the filters.\<close>

lemma xhrResponseHandler_skip:
  assumes "\<not> fst (shouldCaptureResponse self (xhr_status xhr) (responseURL xhr))"
  shows "xhrResponseHandler D self xhr method headers =
           (Inr (), case getCurrentHub self of None \<Rightarrow> []
                    | Some hub \<Rightarrow> snd (shouldCaptureResponse self (xhr_status xhr) (responseURL xhr)))"
  using assms by (auto simp: xhrResponseHandler_def split: option.splits prod.splits bool.splits)

lemma xhrResponseHandler_capture:
  assumes "getCurrentHub self = Some hub"
    and "fst (shouldCaptureResponse self (xhr_status xhr) (responseURL xhr))"
  shows "snd (xhrResponseHandler D self xhr method headers) =
           snd (shouldCaptureResponse self (xhr_status xhr) (responseURL xhr))
           @ [HubShouldSendDefaultPii]
           @ (if shouldSendDefaultPii hub
              then snd (xhr_responseCookies D xhr) @ snd (xhr_responseHeaders D xhr) else [])
           @ [HubCaptureEvent (createEvent
               \<lparr>data_url = responseURL xhr, data_method = method, data_status = xhr_status xhr,
                data_responseHeaders =
                  (if shouldSendDefaultPii hub then fst (xhr_responseHeaders D xhr) else None),
                data_responseCookies =
                  (if shouldSendDefaultPii hub then fst (xhr_responseCookies D xhr) else None),
                data_requestHeaders = (if shouldSendDefaultPii hub then Some headers else None),
                data_requestCookies = None\<rparr>)]"
  using assms
  by (auto simp: xhrResponseHandler_def Let_def split: option.splits prod.splits bool.splits)

lemma fetchResponseHandler_skip:
  assumes "\<not> fst (shouldCaptureResponse self (resp_status response) (resp_url response))"
  shows "fetchResponseHandler D newRequest self requestInfo response requestInit =
           (Inr (), case getCurrentHub self of None \<Rightarrow> []
                    | Some hub \<Rightarrow> snd (shouldCaptureResponse self (resp_status response) (resp_url response)))"
  using assms by (auto simp: fetchResponseHandler_def split: option.splits prod.splits bool.splits)

lemma fetchResponseHandler_capture:
  assumes "getCurrentHub self = Some hub"
    and "fst (shouldCaptureResponse self (resp_status response) (resp_url response))"
    and "newRequest requestInfo requestInit = Inr req"
  shows "snd (fetchResponseHandler D newRequest self requestInfo response requestInit) =
           snd (shouldCaptureResponse self (resp_status response) (resp_url response))
           @ [HubShouldSendDefaultPii]
           @ (if shouldSendDefaultPii hub
              then snd (fetch_headers_cookies D ''Cookie'' (req_headers req))
                   @ snd (fetch_headers_cookies D ''Set-Cookie'' (resp_headers response))
              else [])
           @ [HubCaptureEvent (createEvent
               \<lparr>data_url = req_url req, data_method = JStr (req_method req),
                data_status = resp_status response,
                data_responseHeaders =
                  (if shouldSendDefaultPii hub
                   then fst (fst (fetch_headers_cookies D ''Set-Cookie'' (resp_headers response)))
                   else None),
                data_responseCookies =
                  (if shouldSendDefaultPii hub
                   then snd (fst (fetch_headers_cookies D ''Set-Cookie'' (resp_headers response)))
                   else None),
                data_requestHeaders =
                  (if shouldSendDefaultPii hub
                   then fst (fst (fetch_headers_cookies D ''Cookie'' (req_headers req))) else None),
                data_requestCookies =
                  (if shouldSendDefaultPii hub
                   then snd (fst (fetch_headers_cookies D ''Cookie'' (req_headers req))) else None)\<rparr>)]"
  using assms
  by (auto simp: fetchResponseHandler_def Let_def split: option.splits prod.splits bool.splits)

lemma fetchResponseHandler_newRequest_throws:
  assumes "getCurrentHub self = Some hub"
    and "fst (shouldCaptureResponse self (resp_status response) (resp_url response))"
    and "newRequest requestInfo requestInit = Inl e"
  shows "fetchResponseHandler D newRequest self requestInfo response requestInit =
           (Inl e, snd (shouldCaptureResponse self (resp_status response) (resp_url response)))"
  using assms
  by (auto simp: fetchResponseHandler_def Let_def split: option.splits prod.splits bool.splits)

lemmas example_defs =
  example_self_def example_hub_def example_xhr_def example_response_def example_newRequest_def
  HttpClient_new_def setupOnce_def

lemmas filter_defs =
  isInGivenStatusRanges_def isInGivenRequestTargets_def isSentryRequest_def
  shouldCaptureResponse_def


section \<open>When a response is captured\<close>











section \<open>Requests to Sentry itself\<close>

text \<open>
  C9. When the URL of a response contains the host of the client's DSN, \<open>_isSentryRequest\<close>
  holds, \<open>_shouldCaptureResponse\<close> is false for every status and every configured list,
  and neither handler captures an event. Without a hub getter, without a client or
  without a DSN, \<open>_isSentryRequest\<close> is false: the URL counts as not Sentry's.
\<close>

theorem C9_sentry_requests_excluded:
  "(getCurrentHub self = Some hub \<and> getClient hub = Some client \<and> getDsn client = Some dsn
      \<and> url = p @ host dsn @ q \<longrightarrow>
        fst (isSentryRequest self url)
        \<and> \<not> fst (shouldCaptureResponse self status url)
        \<and> (responseURL xhr = url \<longrightarrow>
             captured (snd (xhrResponseHandler D self xhr method headers)) = [])
        \<and> (resp_url response = url \<longrightarrow>
             captured (snd (fetchResponseHandler D newRequest self requestInfo response requestInit)) = []))
   \<and> (getCurrentHub self = None
        \<or> (\<exists>h. getCurrentHub self = Some h
              \<and> (getClient h = None \<or> (\<exists>c. getClient h = Some c \<and> getDsn c = None)))
      \<longrightarrow> \<not> fst (isSentryRequest self url'))"
proof (intro conjI impI)
  assume a: "getCurrentHub self = Some hub \<and> getClient hub = Some client \<and> getDsn client = Some dsn
      \<and> url = p @ host dsn @ q"
  then have inc: "str_includes url (host dsn)" unfolding str_includes_iff by blast
  with a show s: "fst (isSentryRequest self url)" by (simp add: isSentryRequest_def)
  then show ns: "\<not> fst (shouldCaptureResponse self status url)" for status
    by (simp add: shouldCaptureResponse_fst)
  {
    assume "responseURL xhr = url"
    with ns[of "xhr_status xhr"] have "\<not> fst (shouldCaptureResponse self (xhr_status xhr) (responseURL xhr))"
      by simp
    from xhrResponseHandler_skip[OF this, of D "method" headers] a
    show "captured (snd (xhrResponseHandler D self xhr method headers)) = []"
      by (simp add: captured_shouldCaptureResponse)
  }
  {
    assume "resp_url response = url"
    with ns[of "resp_status response"]
    have "\<not> fst (shouldCaptureResponse self (resp_status response) (resp_url response))"
      by simp
    from fetchResponseHandler_skip[OF this, of D newRequest requestInfo requestInit] a
    show "captured (snd (fetchResponseHandler D newRequest self requestInfo response requestInit)) = []"
      by (simp add: captured_shouldCaptureResponse)
  }
next
  assume "getCurrentHub self = None
        \<or> (\<exists>h. getCurrentHub self = Some h
              \<and> (getClient h = None \<or> (\<exists>c. getClient h = Some c \<and> getDsn c = None)))"
  then show "\<not> fst (isSentryRequest self url')"
    by (auto simp: isSentryRequest_def)
qed

theorem C9_sentry_requests_excluded_witness:
  "getCurrentHub (example_self False) = Some (example_hub False)
   \<and> getClient (example_hub False) = Some \<lparr>getDsn = Some \<lparr>host = ''sentry.io''\<rparr>\<rparr>
   \<and> ''http://sentry.io/x'' = ''http://'' @ ''sentry.io'' @ ''/x''
   \<and> \<not> fst (shouldCaptureResponse (example_self False) 500 ''http://sentry.io/x'')
   \<and> captured (snd (xhrResponseHandler False (example_self False)
         (example_xhr 500 ''http://sentry.io/x'' ''sid=1'') (JStr ''GET'') [])) = []
   \<and> captured (snd (fetchResponseHandler False (example_newRequest []) (example_self False)
         (JStr ''http://sentry.io/x'') (example_response 500 ''http://sentry.io/x'' []) JUndefined)) = []
   \<and> getCurrentHub (HttpClient_new None None) = None
   \<and> \<not> fst (isSentryRequest (HttpClient_new None None) ''http://sentry.io/x'')"
proof -
  have h: "getCurrentHub (example_self False) = Some (example_hub False)"
    and c: "getClient (example_hub False) = Some \<lparr>getDsn = Some \<lparr>host = ''sentry.io''\<rparr>\<rparr>"
    and d: "getDsn \<lparr>getDsn = Some \<lparr>host = ''sentry.io''\<rparr>\<rparr> = Some \<lparr>host = ''sentry.io''\<rparr>"
    and u: "''http://sentry.io/x'' = ''http://'' @ host \<lparr>host = ''sentry.io''\<rparr> @ ''/x''"
    and x: "responseURL (example_xhr 500 ''http://sentry.io/x'' ''sid=1'') = ''http://sentry.io/x''"
    and r: "resp_url (example_response 500 ''http://sentry.io/x'' []) = ''http://sentry.io/x''"
    and n: "getCurrentHub (HttpClient_new None None) = None"
    by (simp_all add: example_defs)
  note a = C9_sentry_requests_excluded[of "example_self False" "example_hub False"
      "\<lparr>getDsn = Some \<lparr>host = ''sentry.io''\<rparr>\<rparr>" "\<lparr>host = ''sentry.io''\<rparr>"
      "''http://sentry.io/x''" "''http://''" "''/x''" 500
      "example_xhr 500 ''http://sentry.io/x'' ''sid=1''" False "JStr ''GET''" "[]"
      "example_response 500 ''http://sentry.io/x'' []" "example_newRequest []"
      "JStr ''http://sentry.io/x''" JUndefined "''http://sentry.io/x''"]
  note b = C9_sentry_requests_excluded[of "HttpClient_new None None" "example_hub False"
      "\<lparr>getDsn = Some \<lparr>host = ''sentry.io''\<rparr>\<rparr>" "\<lparr>host = ''sentry.io''\<rparr>"
      "''http://sentry.io/x''" "''http://''" "''/x''" 500
      "example_xhr 500 ''http://sentry.io/x'' ''sid=1''" False "JStr ''GET''" "[]"
      "example_response 500 ''http://sentry.io/x'' []" "example_newRequest []"
      "JStr ''http://sentry.io/x''" JUndefined "''http://sentry.io/x''"]
  have "''http://sentry.io/x'' = ''http://'' @ ''sentry.io'' @ ''/x''" by simp
  with a b h c d u x r n show ?thesis by blast
qed


section \<open>The synthesized event\<close>

text \<open>
  \<open>parseInt\<close> reads the decimal form of an integer back as the Number nearest to it,
  which up to \<open>2^53\<close> is the integer itself.
\<close>

lemma is_digit_char_of: "k < 10 \<Longrightarrow> is_digit (char_of (48 + (k::nat)))"
  by (simp add: is_digit_def)

lemma digit_value_char_of: "k < 10 \<Longrightarrow> of_char (char_of (48 + (k::nat))) - 48 = k"
  by simp

lemma digits_all_digit: "\<forall>c\<in>set (digits n). is_digit c"
proof (induction n rule: digits.induct)
  case (1 n)
  show ?case
  proof (cases "n < 10")
    case True
    then show ?thesis by (subst digits.simps) (simp add: is_digit_char_of)
  next
    case False
    then have "\<forall>c\<in>set (digits (n div 10)). is_digit c" using 1 by simp
    moreover have "is_digit (char_of (48 + n mod 10))" by (rule is_digit_char_of) simp
    ultimately show ?thesis using False by (subst digits.simps) simp
  qed
qed

lemma digits_nonempty: "digits n \<noteq> []"
  by (subst digits.simps) simp

lemma digits_value_digits: "digits_value (digits n) = n"
proof (induction n rule: digits.induct)
  case (1 n)
  show ?case
  proof (cases "n < 10")
    case True
    then show ?thesis by (subst digits.simps) (simp add: digits_value_def)
  next
    case False
    then have ih: "digits_value (digits (n div 10)) = n div 10" using 1 by simp
    have d: "of_char (char_of (48 + n mod 10)) - 48 = n mod 10"
      by (rule digit_value_char_of) simp
    have "digits_value (digits n) = 10 * digits_value (digits (n div 10)) + (of_char (char_of (48 + n mod 10)) - 48)"
      using False by (subst digits.simps) (simp add: digits_value_def)
    with ih d show ?thesis by simp
  qed
qed

lemma not_space_digit: "is_digit c \<Longrightarrow> \<not> is_space c"
  by (auto simp: is_digit_def is_space_def)

lemma digit_not_sign: "is_digit c \<Longrightarrow> c \<noteq> CHR ''-'' \<and> c \<noteq> CHR ''+''"
  by (auto simp: is_digit_def)

lemma parseInt10_decimal_rounded:
  "parseInt10 (JStr (decimal i)) = js_integer (i < 0) (nat \<bar>i\<bar>)"
proof -
  define ds where "ds = digits (nat \<bar>i\<bar>)"
  have all: "\<forall>c\<in>set ds. is_digit c" and ne: "ds \<noteq> []" and val: "digits_value ds = nat \<bar>i\<bar>"
    by (simp_all add: ds_def digits_all_digit digits_nonempty digits_value_digits)
  from ne obtain c cs where ds: "ds = c # cs" by (cases ds) auto
  with all have c: "is_digit c" by simp
  have tw: "takeWhile is_digit ds = ds" using all by (simp add: takeWhile_eq_all_conv)
  show ?thesis
  proof (cases "i < 0")
    case True
    then have "decimal i = CHR ''-'' # ds" by (simp add: decimal_def ds_def abs_if)
    moreover have "\<not> is_space CHR ''-''" by (simp add: is_space_def)
    ultimately show ?thesis using ne val True
      by (simp add: parseInt10_def Let_def tw del: takeWhile_eq_all_conv)
  next
    case False
    then have "decimal i = ds" by (simp add: decimal_def ds_def abs_if)
    moreover have "dropWhile is_space ds = ds" "hd ds = c"
      using ds not_space_digit[OF c] by simp_all
    ultimately show ?thesis using ne val False digit_not_sign[OF c]
      by (simp add: parseInt10_def Let_def tw del: takeWhile_eq_all_conv)
  qed
qed

lemma js_integer_exact:
  "\<bar>i\<bar> \<le> 2 ^ 53 \<Longrightarrow> js_integer (i < 0) (nat \<bar>i\<bar>) = JNum i"
proof -
  assume "\<bar>i\<bar> \<le> 2 ^ 53"
  then have "nat \<bar>i\<bar> \<le> nat (2 ^ 53)" by (rule nat_mono)
  then have "nat \<bar>i\<bar> \<le> 2 ^ 53" by simp
  then show ?thesis by (simp add: js_integer_def to_double_def)
qed

lemma parseInt10_decimal: "\<bar>i\<bar> \<le> 2 ^ 53 \<Longrightarrow> parseInt10 (JStr (decimal i)) = JNum i"
  by (simp add: parseInt10_decimal_rounded js_integer_exact)

text \<open>
  Past \<open>2^53\<close> the value is rounded to a double, ties to even; a no-break space in
  front is skipped; and from \<open>2^1024\<close> on the result is infinite.
\<close>

lemmas parse_eval =
  parseInt10_def js_integer_def to_double_def Let_def is_space_def is_digit_def digits_value_def
  bit_length.simps

lemma parseInt10_rounds:
  "parseInt10 (JStr ''9007199254740993'') = JNum 9007199254740992
   \<and> parseInt10 (JStr ''9007199254740995'') = JNum 9007199254740996
   \<and> parseInt10 (JStr ''-9007199254740993'') = JNum (- 9007199254740992)
   \<and> parseInt10 (JStr ''123456789012345678901234567890'') = JNum 123456789012345677877719597056
   \<and> parseInt10 (JStr [CHR 0xA0, CHR ''4'', CHR ''2'', CHR ''k'']) = JNum 42"
  by (intro conjI) (simp_all add: parse_eval)

lemma bit_length_bounds: "0 < n \<Longrightarrow> 2 ^ (bit_length n - 1) \<le> n \<and> n < 2 ^ bit_length n"
proof (induction n rule: bit_length.induct)
  case (1 n)
  show ?case
  proof (cases "n div 2 = 0")
    case True
    with 1(2) have "n = 1" by (simp add: div_eq_0_iff) 
    then show ?thesis by (simp add: bit_length.simps)
  next
    case False
    then have "0 < n div 2" by simp
    with 1 have ih: "2 ^ (bit_length (n div 2) - 1) \<le> n div 2 \<and> n div 2 < 2 ^ bit_length (n div 2)"
      by simp
    have pos: "0 < bit_length (n div 2)" using False by (simp add: bit_length.simps)
    have bl: "bit_length n = Suc (bit_length (n div 2))" using 1(2) by (simp add: bit_length.simps)
    from pos have "(2::nat) ^ bit_length (n div 2) = 2 * 2 ^ (bit_length (n div 2) - 1)"
      by (cases "bit_length (n div 2)") simp_all
    with ih have lo: "2 ^ bit_length (n div 2) \<le> n" by linarith
    from ih have "n < 2 * 2 ^ bit_length (n div 2)" by linarith
    with lo bl show ?thesis by simp
  qed
qed

lemma to_double_overflow:
  assumes "2 ^ 1024 \<le> m"
  shows "to_double m = None"
proof -
  let ?L = "bit_length m"
  let ?e = "?L - 53"
  have big: "(2::nat) ^ 53 < 2 ^ 1024" by simp
  with assms have gt: "\<not> m \<le> 2 ^ 53" and pos: "0 < m" by simp_all
  from bit_length_bounds[OF pos] have lo: "2 ^ (?L - 1) \<le> m" and hi: "m < 2 ^ ?L" by simp_all
  from assms hi have lt: "(2::nat) ^ 1024 < 2 ^ ?L" by (rule le_less_trans)
  have L: "1024 < ?L" by (rule power_less_imp_less_exp[OF _ lt]) simp
  then have split: "?L - 1 = 52 + ?e" by simp
  have "2 ^ 52 * 2 ^ ?e \<le> m" using lo unfolding split by (simp add: power_add)
  then have "2 ^ 52 \<le> m div 2 ^ ?e" by (simp add: less_eq_div_iff_mult_less_eq)
  then have "2 ^ 52 * 2 ^ ?e \<le> (m div 2 ^ ?e) * 2 ^ ?e" by simp
  moreover have "(2::nat) ^ 1024 \<le> 2 ^ 52 * 2 ^ ?e"
  proof -
    have "(2::nat) ^ 1024 \<le> 2 ^ (?L - 1)" using L by (intro power_increasing) simp_all
    then show ?thesis unfolding split by (simp add: power_add)
  qed
  ultimately have q: "2 ^ 1024 \<le> (m div 2 ^ ?e) * 2 ^ ?e" by linarith
  then have q1: "2 ^ 1024 \<le> (m div 2 ^ ?e + 1) * 2 ^ ?e" by (simp add: algebra_simps)
  show ?thesis using gt q q1 by (simp add: to_double_def Let_def)
qed

lemma js_integer_overflow:
  "2 ^ 1024 \<le> m \<Longrightarrow> js_integer neg m = (if neg then JNegInfinity else JInfinity)"
  by (simp only: js_integer_def to_double_overflow option.case)





section \<open>Headers and cookies\<close>

text \<open>
  C8. When \<open>hub.shouldSendDefaultPii()\<close> is false, every event a handler captures has no
  request headers, request cookies, response headers or response cookies, whatever the
  request and the response carry: two XHR responses with the same status and URL, with any
  headers and cookies and any request headers set, give the same result and calls, and so
  do two fetch responses with the same status and URL whose requests differ in their
  headers only. When it is true, the XHR handler attaches the request headers it was
  given and what it extracted from the response.
\<close>

theorem C8_headers_and_cookies_only_with_pii:
  "(getCurrentHub self = Some hub \<and> \<not> shouldSendDefaultPii hub \<longrightarrow>
      (\<forall>ev\<in>set (captured (snd (xhrResponseHandler D self xhr method headers))).
          request_headers (request ev) = None \<and> request_cookies (request ev) = None
          \<and> response_headers (contexts_response ev) = None
          \<and> response_cookies (contexts_response ev) = None)
      \<and> (\<forall>ev\<in>set (captured (snd (fetchResponseHandler D newRequest self requestInfo response requestInit))).
          request_headers (request ev) = None \<and> request_cookies (request ev) = None
          \<and> response_headers (contexts_response ev) = None
          \<and> response_cookies (contexts_response ev) = None)
      \<and> (xhr_status xhr' = xhr_status xhr \<and> responseURL xhr' = responseURL xhr \<longrightarrow>
            xhrResponseHandler D self xhr' method headers' = xhrResponseHandler D self xhr method headers)
      \<and> (resp_status response' = resp_status response \<and> resp_url response' = resp_url response
            \<and> map_sum id (\<lambda>r. r\<lparr>req_headers := []\<rparr>) (newRequest' requestInfo requestInit)
              = map_sum id (\<lambda>r. r\<lparr>req_headers := []\<rparr>) (newRequest requestInfo requestInit) \<longrightarrow>
            fetchResponseHandler D newRequest' self requestInfo response' requestInit
              = fetchResponseHandler D newRequest self requestInfo response requestInit))
   \<and> (getCurrentHub self = Some hub \<and> shouldSendDefaultPii hub \<longrightarrow>
      (\<forall>ev\<in>set (captured (snd (xhrResponseHandler D self xhr method headers))).
          request_headers (request ev) = Some headers
          \<and> response_headers (contexts_response ev) = fst (xhr_responseHeaders D xhr)
          \<and> response_cookies (contexts_response ev) = fst (xhr_responseCookies D xhr)))"
proof (intro conjI impI)
  assume a: "getCurrentHub self = Some hub \<and> \<not> shouldSendDefaultPii hub"
  let ?sx = "shouldCaptureResponse self (xhr_status xhr) (responseURL xhr)"
  let ?sf = "shouldCaptureResponse self (resp_status response) (resp_url response)"
  show "\<forall>ev\<in>set (captured (snd (xhrResponseHandler D self xhr method headers))).
          request_headers (request ev) = None \<and> request_cookies (request ev) = None
          \<and> response_headers (contexts_response ev) = None
          \<and> response_cookies (contexts_response ev) = None"
  proof (cases "fst ?sx")
    case True
    from xhrResponseHandler_capture[OF _ True, of hub D "method" headers] a
    show ?thesis
      by (simp add: captured_append captured_shouldCaptureResponse createEvent_def
          addExceptionMechanism_def Let_def)
  next
    case False
    from xhrResponseHandler_skip[OF False, of D "method" headers] a
    show ?thesis by (simp add: captured_shouldCaptureResponse)
  qed
  show "\<forall>ev\<in>set (captured (snd (fetchResponseHandler D newRequest self requestInfo response requestInit))).
          request_headers (request ev) = None \<and> request_cookies (request ev) = None
          \<and> response_headers (contexts_response ev) = None
          \<and> response_cookies (contexts_response ev) = None"
  proof (cases "fst ?sf")
    case True
    show ?thesis
    proof (cases "newRequest requestInfo requestInit")
      case (Inl e)
      from fetchResponseHandler_newRequest_throws[of self hub response newRequest requestInfo requestInit e D]
        a True Inl
      show ?thesis by (simp add: captured_shouldCaptureResponse)
    next
      case (Inr req)
      from fetchResponseHandler_capture[of self hub response newRequest requestInfo requestInit req D]
        a True Inr
      show ?thesis
        by (simp add: captured_append captured_shouldCaptureResponse createEvent_def
            addExceptionMechanism_def Let_def)
    qed
  next
    case False
    from fetchResponseHandler_skip[OF False, of D newRequest requestInfo requestInit] a
    show ?thesis by (simp add: captured_shouldCaptureResponse)
  qed
  {
    assume "xhr_status xhr' = xhr_status xhr \<and> responseURL xhr' = responseURL xhr"
    with a show "xhrResponseHandler D self xhr' method headers' = xhrResponseHandler D self xhr method headers"
      by (auto simp: xhrResponseHandler_def Let_def split: prod.splits bool.splits)
  }
  {
    assume b: "resp_status response' = resp_status response \<and> resp_url response' = resp_url response
            \<and> map_sum id (\<lambda>r. r\<lparr>req_headers := []\<rparr>) (newRequest' requestInfo requestInit)
              = map_sum id (\<lambda>r. r\<lparr>req_headers := []\<rparr>) (newRequest requestInfo requestInit)"
    have "(\<exists>e. newRequest' requestInfo requestInit = Inl e \<and> newRequest requestInfo requestInit = Inl e)
        \<or> (\<exists>r r'. newRequest' requestInfo requestInit = Inr r' \<and> newRequest requestInfo requestInit = Inr r
              \<and> req_url r' = req_url r \<and> req_method r' = req_method r)"
    proof (cases "newRequest requestInfo requestInit")
      case (Inl e)
      with b show ?thesis by (cases "newRequest' requestInfo requestInit") auto
    next
      case (Inr r)
      with b obtain r' where r': "newRequest' requestInfo requestInit = Inr r'"
        and eq: "r'\<lparr>req_headers := []\<rparr> = r\<lparr>req_headers := []\<rparr>"
        by (cases "newRequest' requestInfo requestInit") auto
      from eq have "req_url (r'\<lparr>req_headers := []\<rparr>) = req_url (r\<lparr>req_headers := []\<rparr>)"
        "req_method (r'\<lparr>req_headers := []\<rparr>) = req_method (r\<lparr>req_headers := []\<rparr>)"
        by simp_all
      then have "req_url r' = req_url r" "req_method r' = req_method r" by simp_all
      with Inr r' show ?thesis by blast
    qed
    with a b show "fetchResponseHandler D newRequest' self requestInfo response' requestInit
              = fetchResponseHandler D newRequest self requestInfo response requestInit"
      by (auto simp: fetchResponseHandler_def Let_def split: prod.splits bool.splits)
  }
next
  assume a: "getCurrentHub self = Some hub \<and> shouldSendDefaultPii hub"
  let ?sx = "shouldCaptureResponse self (xhr_status xhr) (responseURL xhr)"
  show "\<forall>ev\<in>set (captured (snd (xhrResponseHandler D self xhr method headers))).
          request_headers (request ev) = Some headers
          \<and> response_headers (contexts_response ev) = fst (xhr_responseHeaders D xhr)
          \<and> response_cookies (contexts_response ev) = fst (xhr_responseCookies D xhr)"
  proof (cases "fst ?sx")
    case True
    from xhrResponseHandler_capture[OF _ True, of hub D "method" headers] a
    show ?thesis
      by (simp add: captured_append captured_shouldCaptureResponse captured_xhr_responseCookies
          captured_xhr_responseHeaders createEvent_def addExceptionMechanism_def Let_def)
  next
    case False
    from xhrResponseHandler_skip[OF False, of D "method" headers] a
    show ?thesis by (simp add: captured_shouldCaptureResponse)
  qed
qed

theorem C8_headers_and_cookies_only_with_pii_witness:
  "getCurrentHub (example_self False) = Some (example_hub False)
   \<and> \<not> shouldSendDefaultPii (example_hub False)
   \<and> captured (snd (xhrResponseHandler False (example_self False)
         (example_xhr 500 ''http://a.io/x'' ''sid=1'') (JStr ''GET'') [(''X-A'', JStr ''1'')])) \<noteq> []
   \<and> list_all
        (\<lambda>ev. request_headers (request ev) = None \<and> request_cookies (request ev) = None
           \<and> response_headers (contexts_response ev) = None
           \<and> response_cookies (contexts_response ev) = None)
        (captured (snd (xhrResponseHandler False (example_self False)
           (example_xhr 500 ''http://a.io/x'' ''sid=1'') (JStr ''GET'') [(''X-A'', JStr ''1'')])))
   \<and> xhrResponseHandler False (example_self False)
         (example_xhr 500 ''http://a.io/x'' ''sid=2'') (JStr ''GET'') []
       = xhrResponseHandler False (example_self False)
           (example_xhr 500 ''http://a.io/x'' ''sid=1'') (JStr ''GET'') [(''X-A'', JStr ''1'')]
   \<and> fetchResponseHandler False (example_newRequest [(''cookie'', ''a=b'')]) (example_self False)
         (JStr ''http://a.io/x'') (example_response 503 ''http://a.io/x'' [(''set-cookie'', ''k=v'')])
         JUndefined
       = fetchResponseHandler False (example_newRequest []) (example_self False)
           (JStr ''http://a.io/x'') (example_response 503 ''http://a.io/x'' []) JUndefined
   \<and> getCurrentHub (example_self True) = Some (example_hub True)
   \<and> shouldSendDefaultPii (example_hub True)
   \<and> captured (snd (xhrResponseHandler False (example_self True)
         (example_xhr 500 ''http://a.io/x'' ''sid=1'') (JStr ''GET'') [(''X-A'', JStr ''1'')])) \<noteq> []
   \<and> list_all (\<lambda>ev. request_headers (request ev) = Some [(''X-A'', JStr ''1'')])
        (captured (snd (xhrResponseHandler False (example_self True)
           (example_xhr 500 ''http://a.io/x'' ''sid=1'') (JStr ''GET'') [(''X-A'', JStr ''1'')])))"
proof -
  let ?x1 = "example_xhr 500 ''http://a.io/x'' ''sid=1''"
  let ?x2 = "example_xhr 500 ''http://a.io/x'' ''sid=2''"
  let ?r1 = "example_response 503 ''http://a.io/x'' []"
  let ?r2 = "example_response 503 ''http://a.io/x'' [(''set-cookie'', ''k=v'')]"
  have h: "getCurrentHub (example_self False) = Some (example_hub False)"
    and p: "\<not> shouldSendDefaultPii (example_hub False)"
    and h': "getCurrentHub (example_self True) = Some (example_hub True)"
    and p': "shouldSendDefaultPii (example_hub True)"
    and x: "xhr_status ?x2 = xhr_status ?x1 \<and> responseURL ?x2 = responseURL ?x1"
    and r: "resp_status ?r2 = resp_status ?r1 \<and> resp_url ?r2 = resp_url ?r1
          \<and> map_sum id (\<lambda>r. r\<lparr>req_headers := []\<rparr>)
                (example_newRequest [(''cookie'', ''a=b'')] (JStr ''http://a.io/x'') JUndefined)
            = map_sum id (\<lambda>r. r\<lparr>req_headers := []\<rparr>)
                (example_newRequest [] (JStr ''http://a.io/x'') JUndefined)"
    by (simp_all add: example_defs)
  have ne: "captured (snd (xhrResponseHandler False (example_self pii) ?x1 (JStr ''GET'')
              [(''X-A'', JStr ''1'')])) \<noteq> []" for pii
    by (simp add: example_defs filter_defs xhrResponseHandler_def Let_def
        xhr_responseCookies_def xhr_responseHeaders_def captured_append split: prod.splits)
  note a = C8_headers_and_cookies_only_with_pii[of "example_self False" "example_hub False"
      False ?x1 "JStr ''GET''" "[(''X-A'', JStr ''1'')]" "example_newRequest []"
      "JStr ''http://a.io/x''" ?r1 JUndefined ?x2 "[]" ?r2 "example_newRequest [(''cookie'', ''a=b'')]"]
  note b = C8_headers_and_cookies_only_with_pii[of "example_self True" "example_hub True"
      False ?x1 "JStr ''GET''" "[(''X-A'', JStr ''1'')]" "example_newRequest []"
      "JStr ''http://a.io/x''" ?r1 JUndefined ?x2 "[]" ?r2 "example_newRequest [(''cookie'', ''a=b'')]"]
  from a h p x r b h' p' ne[of False] ne[of True] show ?thesis
    unfolding list_all_iff by blast
qed


section \<open>The wrappers\<close>

text \<open>
  However often \<open>open\<close> has wrapped it, a call of \<open>setRequestHeader\<close> reaches the native
  method once, with the arguments of the call.
\<close>

lemma call_setRequestHeader_native:
  "fst (call_setRequestHeader pf f args objs) = returns (native_setRequestHeader pf args)
   \<and> snd (snd (call_setRequestHeader pf f args objs)) = [NativeSetRequestHeader args]"
  by (induction f arbitrary: objs) (simp_all add: Let_def)

text \<open>
  C10. The wrapped \<open>fetch\<close> returns exactly what the original \<open>fetch\<close> returns for the same
  \<open>this\<close> and the same arguments: its promise, or its exception. The wrapped \<open>open\<close> calls
  the original \<open>open\<close> with the arguments it was given and returns its result, and the
  \<open>setRequestHeader\<close> it installs calls the original one with the arguments it was
  given and returns its result.
\<close>

theorem C10_wrappers_pass_through:
  "fst (wrapped_fetch D newRequest self originalFetch this args) = originalFetch this args
   \<and> fst (wrapped_open pf xhr openArgs) = returns (native_open pf openArgs)
   \<and> snd (snd (wrapped_open pf xhr openArgs)) = [NativeOpen openArgs]
   \<and> setRequestHeader_prop (fst (snd (wrapped_open pf xhr openArgs)))
       = WrappedSetRequestHeader (length (headers_objects xhr)) (setRequestHeader_prop xhr)
   \<and> fst (call_setRequestHeader pf f setRequestHeaderArgs objs)
       = returns (native_setRequestHeader pf setRequestHeaderArgs)
   \<and> snd (snd (call_setRequestHeader pf f setRequestHeaderArgs objs))
       = [NativeSetRequestHeader setRequestHeaderArgs]"
proof -
  have "fst (wrapped_fetch D newRequest self originalFetch this args) = originalFetch this args"
    by (simp add: wrapped_fetch_def Let_def split: sum.splits)
  moreover have "fst (wrapped_open pf xhr openArgs) = returns (native_open pf openArgs)"
    "snd (snd (wrapped_open pf xhr openArgs)) = [NativeOpen openArgs]"
    "setRequestHeader_prop (fst (snd (wrapped_open pf xhr openArgs)))
       = WrappedSetRequestHeader (length (headers_objects xhr)) (setRequestHeader_prop xhr)"
    by (simp_all add: wrapped_open_def Let_def fill_def)
  ultimately show ?thesis
    using call_setRequestHeader_native[of pf f setRequestHeaderArgs objs] by simp
qed

text \<open>
  C3. The replacement of \<open>onloadend\<close> returns what the handler it replaced returns, and
  calls it after the response handler, with the same arguments, whatever the response
  handler does: when \<open>_xhrResponseHandler\<close> throws, the exception is caught and, in a debug
  build, logged as a warning. The wrapped \<open>fetch\<close> returns the promise of the original
  \<open>fetch\<close> itself, so it settles as that one does; an exception of
  \<open>_fetchResponseHandler\<close> rejects the promise of the chain the wrapper built, which is
  not returned, and is left as a rejection nobody handles.
\<close>

theorem C3_handler_exceptions_contained:
  "call_onloadend D pf self xhr objs (WrappedOnloadend method headers original) onloadendArgs =
     (if original = NoHandler then Inr JUndefined
      else fst (call_onloadend D pf self xhr objs original onloadendArgs),
      guarded_xhrResponseHandler D self xhr method (headers_at objs headers)
      @ (if original = NoHandler then []
         else snd (call_onloadend D pf self xhr objs original onloadendArgs)))
   \<and> call_onloadend D pf self xhr objs (WrappedOnloadend method headers (AppHandler h)) onloadendArgs =
       (app_onloadend pf h onloadendArgs,
        guarded_xhrResponseHandler D self xhr method (headers_at objs headers)
        @ [AppOnloadend h onloadendArgs])
   \<and> (\<forall>e cs. xhrResponseHandler D self xhr method hs = (Inl e, cs) \<longrightarrow>
         guarded_xhrResponseHandler D self xhr method hs =
           cs @ (if D then [LoggerWarn ''Error while extracting response event form XHR response'' e]
                 else []))
   \<and> (\<forall>p. originalFetch this args = Inr p \<longrightarrow>
         fst (wrapped_fetch D newRequest self originalFetch this args) = Inr p)
   \<and> (\<forall>response e cs. originalFetch this args = Inr (Fulfilled response)
         \<and> fetchResponseHandler D newRequest self (arg args 0) response (arg args 1) = (Inl e, cs) \<longrightarrow>
         wrapped_fetch D newRequest self originalFetch this args =
           (Inr (Fulfilled response), cs @ [UnhandledRejection e]))"
proof (intro conjI allI impI)
  show "call_onloadend D pf self xhr objs (WrappedOnloadend method headers original) onloadendArgs =
     (if original = NoHandler then Inr JUndefined
      else fst (call_onloadend D pf self xhr objs original onloadendArgs),
      guarded_xhrResponseHandler D self xhr method (headers_at objs headers)
      @ (if original = NoHandler then []
         else snd (call_onloadend D pf self xhr objs original onloadendArgs)))"
    by (simp add: Let_def split: prod.splits)
  show "call_onloadend D pf self xhr objs (WrappedOnloadend method headers (AppHandler h)) onloadendArgs =
       (app_onloadend pf h onloadendArgs,
        guarded_xhrResponseHandler D self xhr method (headers_at objs headers)
        @ [AppOnloadend h onloadendArgs])"
    by (simp add: Let_def)
next
  fix e cs
  assume "xhrResponseHandler D self xhr method hs = (Inl e, cs)"
  then show "guarded_xhrResponseHandler D self xhr method hs =
           cs @ (if D then [LoggerWarn ''Error while extracting response event form XHR response'' e]
                 else [])"
    by (simp add: guarded_xhrResponseHandler_def debug_log_def)
next
  fix p
  assume "originalFetch this args = Inr p"
  then show "fst (wrapped_fetch D newRequest self originalFetch this args) = Inr p"
    by (simp add: wrapped_fetch_def Let_def)
next
  fix response e cs
  assume "originalFetch this args = Inr (Fulfilled response)
         \<and> fetchResponseHandler D newRequest self (arg args 0) response (arg args 1) = (Inl e, cs)"
  then show "wrapped_fetch D newRequest self originalFetch this args =
           (Inr (Fulfilled response), cs @ [UnhandledRejection e])"
    by (simp add: wrapped_fetch_def Let_def)
qed

theorem C3_handler_exceptions_contained_witness:
  "xhrResponseHandler True example_throwing_self (example_xhr 500 ''http://a.io/x'' ''sid=1'')
       (JStr ''GET'') []
     = (Inl (Thrown ''captureEvent failed''),
        snd (xhrResponseHandler True example_throwing_self
               (example_xhr 500 ''http://a.io/x'' ''sid=1'') (JStr ''GET'') []))
   \<and> call_onloadend True example_platform example_throwing_self
         (example_xhr 500 ''http://a.io/x'' ''sid=1'') [[]]
         (WrappedOnloadend (JStr ''GET'') 0 (AppHandler 3)) [JObj 1]
     = (Inr (JNum 7),
        snd (xhrResponseHandler True example_throwing_self
               (example_xhr 500 ''http://a.io/x'' ''sid=1'') (JStr ''GET'') [])
        @ [LoggerWarn ''Error while extracting response event form XHR response''
             (Thrown ''captureEvent failed''),
           AppOnloadend 3 [JObj 1]])
   \<and> fetchResponseHandler True (example_newRequest []) example_throwing_self
         (arg [JStr ''http://a.io/x''] 0) (example_response 500 ''http://a.io/x'' [])
         (arg [JStr ''http://a.io/x''] 1)
     = (Inl (Thrown ''captureEvent failed''),
        snd (fetchResponseHandler True (example_newRequest []) example_throwing_self
               (arg [JStr ''http://a.io/x''] 0) (example_response 500 ''http://a.io/x'' [])
               (arg [JStr ''http://a.io/x''] 1)))
   \<and> wrapped_fetch True (example_newRequest []) example_throwing_self
         (\<lambda>this args. Inr (Fulfilled (example_response 500 ''http://a.io/x'' [])))
         JUndefined [JStr ''http://a.io/x'']
     = (Inr (Fulfilled (example_response 500 ''http://a.io/x'' [])),
        snd (fetchResponseHandler True (example_newRequest []) example_throwing_self
               (arg [JStr ''http://a.io/x''] 0) (example_response 500 ''http://a.io/x'' [])
               (arg [JStr ''http://a.io/x''] 1))
        @ [UnhandledRejection (Thrown ''captureEvent failed'')])"
proof -
  let ?x = "example_xhr 500 ''http://a.io/x'' ''sid=1''"
  let ?r = "example_response 500 ''http://a.io/x'' []"
  let ?f = "\<lambda>this args. Inr (Fulfilled ?r) :: exn + Response promise"
  let ?a = "[JStr ''http://a.io/x'']"
  have "fst (xhrResponseHandler True example_throwing_self ?x (JStr ''GET'') [])
          = Inl (Thrown ''captureEvent failed'')"
    by (simp add: example_throwing_self_def example_defs filter_defs xhrResponseHandler_def
        Let_def split: prod.splits)
  then have hx: "xhrResponseHandler True example_throwing_self ?x (JStr ''GET'') []
     = (Inl (Thrown ''captureEvent failed''),
        snd (xhrResponseHandler True example_throwing_self ?x (JStr ''GET'') []))"
    by (metis prod.collapse)
  have "fst (fetchResponseHandler True (example_newRequest []) example_throwing_self
          (arg ?a 0) ?r (arg ?a 1)) = Inl (Thrown ''captureEvent failed'')"
    by (simp add: example_throwing_self_def example_defs filter_defs fetchResponseHandler_def
        arg_def Let_def split: prod.splits)
  then have hf: "fetchResponseHandler True (example_newRequest []) example_throwing_self
          (arg ?a 0) ?r (arg ?a 1)
     = (Inl (Thrown ''captureEvent failed''),
        snd (fetchResponseHandler True (example_newRequest []) example_throwing_self
               (arg ?a 0) ?r (arg ?a 1)))"
    by (metis prod.collapse)
  have app: "app_onloadend example_platform 3 [JObj 1] = Inr (JNum 7)"
    and hd: "headers_at [[]] 0 = []"
    and o: "?f JUndefined ?a = Inr (Fulfilled ?r)"
    by (simp_all add: example_platform_def headers_at_def)
  note t = C3_handler_exceptions_contained[of True example_platform example_throwing_self ?x
      "[[]]" "JStr ''GET''" 0 "AppHandler 3" "[JObj 1]" 3 "[]" ?f JUndefined ?a
      "example_newRequest []"]
  note t2 = t[THEN conjunct2, THEN conjunct1]
  note t3 = t[THEN conjunct2, THEN conjunct2, THEN conjunct1, rule_format, OF hx]
  note t5 = t[THEN conjunct2, THEN conjunct2, THEN conjunct2, THEN conjunct2, rule_format,
      OF conjI[OF o hf]]
  have 1: "call_onloadend True example_platform example_throwing_self ?x [[]]
         (WrappedOnloadend (JStr ''GET'') 0 (AppHandler 3)) [JObj 1]
     = (Inr (JNum 7),
        snd (xhrResponseHandler True example_throwing_self ?x (JStr ''GET'') [])
        @ [LoggerWarn ''Error while extracting response event form XHR response''
             (Thrown ''captureEvent failed''),
           AppOnloadend 3 [JObj 1]])"
    using t2 t3 unfolding app hd by simp
  have 2: "wrapped_fetch True (example_newRequest []) example_throwing_self ?f JUndefined ?a
     = (Inr (Fulfilled ?r),
        snd (fetchResponseHandler True (example_newRequest []) example_throwing_self
               (arg ?a 0) ?r (arg ?a 1))
        @ [UnhandledRejection (Thrown ''captureEvent failed'')])"
    using t5 by simp
  from hx 1 hf 2 show ?thesis by (intro conjI)
qed


section \<open>The breadcrumb of a DOM event\<close>

lemma extract_target_cases:
  "extract_target env (HandlerData event name) =
     (case event of
        None \<Rightarrow> (''<unknown>'', None)
      | Some (DomEvent (Inl e) n) \<Rightarrow> (''<unknown>'', None)
      | Some (DomEvent (Inr t) n) \<Rightarrow>
          (case htmlTreeAsString env (case t of Some m \<Rightarrow> m | None \<Rightarrow> n) of
             Inl e \<Rightarrow> (''<unknown>'', Some (case t of Some m \<Rightarrow> m | None \<Rightarrow> n))
           | Inr s \<Rightarrow> (s, Some (case t of Some m \<Rightarrow> m | None \<Rightarrow> n))))"
  by (simp add: extract_target_def target_of_event_def Let_def
      split: option.splits DomEvent.splits sum.splits)

lemma handleDom_object:
  "handleDom env (HandlerData event name) =
     (if fst (extract_target env (HandlerData event name)) = [] then Inr None
      else Inr (Some
        \<lparr>timestamp = of_int (getTime env) / 1000,
         breadcrumb_type = ''default'',
         category = ''ui.'' @ to_string name,
         breadcrumb_message = fst (extract_target env (HandlerData event name)),
         breadcrumb_data =
           \<lparr>nodeId =
              (case snd (extract_target env (HandlerData event name)) of
                 None \<Rightarrow> JUndefined
               | Some n \<Rightarrow> JNum (mirror_getId env n))\<rparr>\<rparr>))"
  by (simp add: handleDom_def split: prod.splits)

text \<open>
  When the name cannot be converted, \<open>handleDom\<close> raises, unless the target is described
  by the empty string and \<open>null\<close> is returned before the name is read.
\<close>

lemma handleDom_name_throws:
  "handleDom env (NameThrows event e) =
     (if fst (extract_target env (NameThrows event e)) = [] then Inr None else Inl e)"
  by (simp add: handleDom_def split: prod.splits)

text \<open>
  C4, as amended. On every \<open>handlerData\<close> that is an object whose \<open>name\<close> can be read and
  converted to a string, \<open>handleDom\<close> returns and does not raise. When \<open>event\<close> is
  missing, when reading \<open>event.target\<close> throws or when \<open>htmlTreeAsString\<close> throws, the
  result is a breadcrumb with the message \<open><unknown>\<close>. When the target is described by a
  string, the result is \<open>null\<close> exactly when that string is empty, and a breadcrumb with
  that message otherwise.
\<close>

theorem C4_handleDom_total_on_objects:
  "(\<exists>r. handleDom env (HandlerData event name) = Inr r)
   \<and> (event = None \<or> (\<exists>e n. event = Some (DomEvent (Inl e) n))
        \<or> (\<exists>t n e. event = Some (DomEvent (Inr t) n)
              \<and> htmlTreeAsString env (case t of Some m \<Rightarrow> m | None \<Rightarrow> n) = Inl e)
      \<longrightarrow> (\<exists>b. handleDom env (HandlerData event name) = Inr (Some b)
                \<and> breadcrumb_message b = ''<unknown>''))
   \<and> (\<forall>t n s. event = Some (DomEvent (Inr t) n)
          \<and> htmlTreeAsString env (case t of Some m \<Rightarrow> m | None \<Rightarrow> n) = Inr s
        \<longrightarrow> (handleDom env (HandlerData event name) = Inr None \<longleftrightarrow> s = [])
            \<and> (s \<noteq> [] \<longrightarrow> (\<exists>b. handleDom env (HandlerData event name) = Inr (Some b)
                                \<and> breadcrumb_message b = s)))"
proof (intro conjI allI impI)
  show "\<exists>r. handleDom env (HandlerData event name) = Inr r"
    by (simp add: handleDom_object)
next
  assume "event = None \<or> (\<exists>e n. event = Some (DomEvent (Inl e) n))
        \<or> (\<exists>t n e. event = Some (DomEvent (Inr t) n)
              \<and> htmlTreeAsString env (case t of Some m \<Rightarrow> m | None \<Rightarrow> n) = Inl e)"
  then have "fst (extract_target env (HandlerData event name)) = ''<unknown>''"
    by (auto simp: extract_target_cases)
  then show "\<exists>b. handleDom env (HandlerData event name) = Inr (Some b)
                \<and> breadcrumb_message b = ''<unknown>''"
    by (simp add: handleDom_object)
next
  fix t n s
  assume a: "event = Some (DomEvent (Inr t) n)
          \<and> htmlTreeAsString env (case t of Some m \<Rightarrow> m | None \<Rightarrow> n) = Inr s"
  then have f: "fst (extract_target env (HandlerData event name)) = s"
    by (simp add: extract_target_cases)
  show "handleDom env (HandlerData event name) = Inr None \<longleftrightarrow> s = []"
    by (simp add: handleDom_object f)
  assume "s \<noteq> []"
  then show "\<exists>b. handleDom env (HandlerData event name) = Inr (Some b) \<and> breadcrumb_message b = s"
    by (simp add: handleDom_object f)
qed

theorem C4_handleDom_total_on_objects_witness:
  "htmlTreeAsString example_dom_env 1 = Inl (Thrown ''detached'')
   \<and> (\<exists>b. handleDom example_dom_env (HandlerData (Some (DomEvent (Inr (Some 1)) 9)) (JStr ''click''))
            = Inr (Some b)
          \<and> breadcrumb_message b = ''<unknown>'')
   \<and> htmlTreeAsString example_dom_env 0 = Inr []
   \<and> handleDom example_dom_env (HandlerData (Some (DomEvent (Inr (Some 0)) 9)) (JStr ''click''))
       = Inr None
   \<and> htmlTreeAsString example_dom_env 2 = Inr ''body > button''
   \<and> (\<exists>b. handleDom example_dom_env (HandlerData (Some (DomEvent (Inr (Some 2)) 9)) (JStr ''click''))
            = Inr (Some b)
          \<and> breadcrumb_message b = ''body > button'')"
proof -
  have h1: "htmlTreeAsString example_dom_env (case Some 1 of Some m \<Rightarrow> m | None \<Rightarrow> 9)
              = Inl (Thrown ''detached'')"
    and h0: "htmlTreeAsString example_dom_env (case Some 0 of Some m \<Rightarrow> m | None \<Rightarrow> 9) = Inr []"
    and h2: "htmlTreeAsString example_dom_env (case Some 2 of Some m \<Rightarrow> m | None \<Rightarrow> 9)
              = Inr ''body > button''"
    by (simp_all add: example_dom_env_def)
  note t1 = C4_handleDom_total_on_objects[of example_dom_env "Some (DomEvent (Inr (Some 1)) 9)"
      "JStr ''click''", THEN conjunct2, THEN conjunct1, rule_format]
  note t0 = C4_handleDom_total_on_objects[of example_dom_env "Some (DomEvent (Inr (Some 0)) 9)"
      "JStr ''click''", THEN conjunct2, THEN conjunct2, rule_format, OF conjI[OF refl h0]]
  note t2 = C4_handleDom_total_on_objects[of example_dom_env "Some (DomEvent (Inr (Some 2)) 9)"
      "JStr ''click''", THEN conjunct2, THEN conjunct2, rule_format, OF conjI[OF refl h2]]
  have 1: "\<exists>b. handleDom example_dom_env (HandlerData (Some (DomEvent (Inr (Some 1)) 9)) (JStr ''click''))
            = Inr (Some b) \<and> breadcrumb_message b = ''<unknown>''"
    using h1 by (intro t1) blast
  have 0: "handleDom example_dom_env (HandlerData (Some (DomEvent (Inr (Some 0)) 9)) (JStr ''click''))
       = Inr None"
    using t0 by simp
  have 2: "\<exists>b. handleDom example_dom_env (HandlerData (Some (DomEvent (Inr (Some 2)) 9)) (JStr ''click''))
            = Inr (Some b) \<and> breadcrumb_message b = ''body > button''"
    using t2 by simp
  from h1 h0 h2 1 0 2 show ?thesis by simp
qed

text \<open>
  The claim C4 as it is written fails: on \<open>null\<close> or \<open>undefined\<close> the \<open>try\<close> block
  catches the failing read of \<open>handlerData.event\<close>, the message is \<open><unknown>\<close>, and the
  read of \<open>handlerData.name\<close> for the category, which no \<open>try\<close> guards, raises.
\<close>

theorem C4_handleDom_raises_on_nullish:
  "handleDom example_dom_env Nullish
     = Inl (TypeError ''Cannot read properties of undefined (reading name)'')"
  by (simp add: handleDom_def extract_target_def)

text \<open>
  C5. Every breadcrumb \<open>handleDom\<close> returns has the fields \<open>timestamp\<close>, \<open>type\<close>,
  \<open>category\<close>, \<open>message\<close> and \<open>data\<close>: the time in milliseconds divided by 1000, the
  type \<open>default\<close>, \<open>ui.\<close> followed by \<open>handlerData.name\<close>, the variable \<open>target\<close> and
  a \<open>nodeId\<close>. \<open>target\<close> is what \<open>htmlTreeAsString\<close> returns for the target node (C4
  says what it is when that fails); \<open>nodeId\<close> is the mirror's id of \<open>targetNode\<close>, the
  node that was described (\<open>event.target\<close>, or the event when it has none), and
  \<open>undefined\<close> when reading it threw and there is none.
\<close>

theorem C5_breadcrumb_fields:
  "(handleDom env handlerData = Inr (Some b) \<longrightarrow>
      (\<exists>event name. handlerData = HandlerData event name
         \<and> b = \<lparr>timestamp = of_int (getTime env) / 1000,
                breadcrumb_type = ''default'',
                category = ''ui.'' @ to_string name,
                breadcrumb_message = fst (extract_target env handlerData),
                breadcrumb_data =
                  \<lparr>nodeId =
                     (case snd (extract_target env handlerData) of
                        None \<Rightarrow> JUndefined
                      | Some n \<Rightarrow> JNum (mirror_getId env n))\<rparr>\<rparr>))
   \<and> (\<forall>t n s. htmlTreeAsString env (case t of Some m \<Rightarrow> m | None \<Rightarrow> n) = Inr s \<longrightarrow>
         extract_target env (HandlerData (Some (DomEvent (Inr t) n)) name)
           = (s, Some (case t of Some m \<Rightarrow> m | None \<Rightarrow> n)))
   \<and> (\<forall>e n. extract_target env (HandlerData (Some (DomEvent (Inl e) n)) name) = (''<unknown>'', None))"
proof (intro conjI allI impI)
  assume a: "handleDom env handlerData = Inr (Some b)"
  show "\<exists>event name. handlerData = HandlerData event name
         \<and> b = \<lparr>timestamp = of_int (getTime env) / 1000,
                breadcrumb_type = ''default'',
                category = ''ui.'' @ to_string name,
                breadcrumb_message = fst (extract_target env handlerData),
                breadcrumb_data =
                  \<lparr>nodeId =
                     (case snd (extract_target env handlerData) of
                        None \<Rightarrow> JUndefined
                      | Some n \<Rightarrow> JNum (mirror_getId env n))\<rparr>\<rparr>"
  proof (cases handlerData)
    case Nullish
    with a show ?thesis by (simp add: handleDom_def split: prod.splits if_splits)
  next
    case (NameThrows event e)
    with a show ?thesis by (simp add: handleDom_def split: prod.splits if_splits)
  next
    case (HandlerData event name)
    with a show ?thesis by (auto simp: handleDom_object split: if_splits)
  qed
next
  fix t n s
  assume "htmlTreeAsString env (case t of Some m \<Rightarrow> m | None \<Rightarrow> n) = Inr s"
  then show "extract_target env (HandlerData (Some (DomEvent (Inr t) n)) name)
           = (s, Some (case t of Some m \<Rightarrow> m | None \<Rightarrow> n))"
    by (simp add: extract_target_cases)
next
  fix e n
  show "extract_target env (HandlerData (Some (DomEvent (Inl e) n)) name) = (''<unknown>'', None)"
    by (simp add: extract_target_cases)
qed

theorem C5_breadcrumb_fields_witness:
  "htmlTreeAsString example_dom_env 2 = Inr ''body > button''
   \<and> handleDom example_dom_env (HandlerData (Some (DomEvent (Inr (Some 2)) 9)) (JStr ''click''))
     = Inr (Some
         \<lparr>timestamp = 3 / 2,
          breadcrumb_type = ''default'',
          category = ''ui.click'',
          breadcrumb_message = ''body > button'',
          breadcrumb_data = \<lparr>nodeId = JNum 2\<rparr>\<rparr>)"
proof -
  let ?hd = "HandlerData (Some (DomEvent (Inr (Some 2)) 9)) (JStr ''click'') :: nat HandlerData"
  have h2: "htmlTreeAsString example_dom_env (case Some 2 of Some m \<Rightarrow> m | None \<Rightarrow> 9)
              = Inr ''body > button''"
    by (simp add: example_dom_env_def)
  have "fst (extract_target example_dom_env ?hd) \<noteq> []"
    by (simp add: extract_target_def target_of_event_def example_dom_env_def)
  then obtain b where b: "handleDom example_dom_env ?hd = Inr (Some b)"
    by (simp add: handleDom_object)
  note t = C5_breadcrumb_fields[of example_dom_env ?hd b "JStr ''click''"]
  note e = t[THEN conjunct2, THEN conjunct1, rule_format, OF h2]
  from t b obtain event name where hd: "?hd = HandlerData event name"
    and bb: "b = \<lparr>timestamp = of_int (getTime example_dom_env) / 1000,
                breadcrumb_type = ''default'',
                category = ''ui.'' @ to_string name,
                breadcrumb_message = fst (extract_target example_dom_env ?hd),
                breadcrumb_data =
                  \<lparr>nodeId =
                     (case snd (extract_target example_dom_env ?hd) of
                        None \<Rightarrow> JUndefined
                      | Some n \<Rightarrow> JNum (mirror_getId example_dom_env n))\<rparr>\<rparr>"
    by blast
  from hd have name: "name = JStr ''click''" by simp
  have "b = \<lparr>timestamp = 3 / 2, breadcrumb_type = ''default'', category = ''ui.click'',
            breadcrumb_message = ''body > button'', breadcrumb_data = \<lparr>nodeId = JNum 2\<rparr>\<rparr>"
    unfolding bb name e by (simp add: example_dom_env_def)
  with b h2 show ?thesis by simp
qed


section \<open>The breadcrumb ring\<close>

text \<open>
  Keeping the last \<open>N\<close> after every addition keeps the last \<open>N\<close> of the whole sequence;
  an addition changes the ring's buffer and no other array.
\<close>

lemma lastN_step:
  assumes "length xs \<le> N" "0 < N"
  shows "(if length xs \<ge> N then tl xs else xs) @ [b] = drop (length (xs @ [b]) - N) (xs @ [b])"
proof (cases "length xs \<ge> N")
  case True
  with assms have "length xs = N" by simp
  with assms show ?thesis by (cases xs) auto
next
  case False
  then show ?thesis by simp
qed

lemma drop_drop_last:
  "drop (length (drop (length xs - N) xs @ ys) - N) (drop (length xs - N) xs @ ys)
     = drop (length (xs @ ys) - N) (xs @ ys)"
proof (cases "length xs \<le> N")
  case True
  then show ?thesis by simp
next
  case False
  then have "length (drop (length xs - N) xs) = N" by simp
  then show ?thesis using False by (simp add: drop_append add.commute)
qed

lemma length_ring_add [simp]: "length (ring_add ring b st) = length st"
  by (simp add: ring_add_def Let_def)

lemma ring_add_other: "a \<noteq> buffer ring \<Longrightarrow> ring_add ring b st ! a = st ! a"
  by (simp add: ring_add_def Let_def)

lemma ring_add_buffer:
  assumes "buffer ring < length st" "length (st ! buffer ring) \<le> capacity ring"
  shows "ring_add ring b st ! buffer ring
           = drop (length (st ! buffer ring @ [b]) - capacity ring) (st ! buffer ring @ [b])"
proof (cases "capacity ring = 0")
  case True
  with assms show ?thesis by (simp add: ring_add_def)
next
  case False
  then have "0 < capacity ring" by simp
  from lastN_step[OF assms(2) this, of b] assms(1) False
  show ?thesis by (simp add: ring_add_def Let_def)
qed

lemma length_addBreadcrumb [simp]: "length (addBreadcrumb f ring b st) = length st"
  by (simp add: addBreadcrumb_def split: option.splits)

lemma length_addBreadcrumbs [simp]: "length (addBreadcrumbs f ring bs st) = length st"
  by (induction bs arbitrary: st) simp_all

lemma addBreadcrumbs_other:
  "a \<noteq> buffer ring \<Longrightarrow> addBreadcrumbs f ring bs st ! a = st ! a"
proof (induction bs arbitrary: st)
  case Nil
  then show ?case by simp
next
  case (Cons b bs)
  then show ?case by (simp add: addBreadcrumb_def ring_add_other split: option.splits)
qed

lemma accepted_Cons:
  "accepted f (b # bs) =
     (case f of None \<Rightarrow> b # accepted f bs
      | Some g \<Rightarrow> (case g b of None \<Rightarrow> accepted f bs | Some b' \<Rightarrow> b' # accepted f bs))"
  by (simp add: accepted_def List.map_filter_simps split: option.splits)

lemma addBreadcrumbs_buffer:
  assumes "buffer ring < length st" "length (st ! buffer ring) \<le> capacity ring"
  shows "addBreadcrumbs f ring bs st ! buffer ring
           = drop (length (st ! buffer ring @ accepted f bs) - capacity ring)
               (st ! buffer ring @ accepted f bs)"
  using assms
proof (induction bs arbitrary: st)
  case Nil
  then show ?case by (simp add: accepted_def List.map_filter_simps split: option.splits)
next
  case (Cons b bs)
  let ?N = "capacity ring"
  let ?xs = "st ! buffer ring"
  have step: "addBreadcrumbs f ring bs (ring_add ring c st) ! buffer ring
      = drop (length (?xs @ c # accepted f bs) - ?N) (?xs @ c # accepted f bs)" for c
  proof -
    have l: "buffer ring < length (ring_add ring c st)" using Cons.prems by simp
    have r: "ring_add ring c st ! buffer ring = drop (length (?xs @ [c]) - ?N) (?xs @ [c])"
      using ring_add_buffer[OF Cons.prems] .
    then have le: "length (ring_add ring c st ! buffer ring) \<le> ?N" by simp
    from Cons.IH[OF l le] r
    have "addBreadcrumbs f ring bs (ring_add ring c st) ! buffer ring
      = drop (length (drop (length (?xs @ [c]) - ?N) (?xs @ [c]) @ accepted f bs) - ?N)
          (drop (length (?xs @ [c]) - ?N) (?xs @ [c]) @ accepted f bs)"
      by simp
    also have "\<dots> = drop (length ((?xs @ [c]) @ accepted f bs) - ?N) ((?xs @ [c]) @ accepted f bs)"
      by (rule drop_drop_last)
    finally show ?thesis by simp
  qed
  show ?case
  proof (cases f)
    case None
    then show ?thesis using step[of b] by (simp add: addBreadcrumb_def accepted_Cons)
  next
    case (Some g)
    show ?thesis
    proof (cases "g b")
      case None
      with Some Cons show ?thesis by (simp add: addBreadcrumb_def accepted_Cons)
    next
      case (Some b')
      with \<open>f = Some g\<close> show ?thesis using step[of b'] by (simp add: addBreadcrumb_def accepted_Cons)
    qed
  qed
qed

text \<open>
  C7. After any sequence of \<open>addBreadcrumb\<close> calls on a new ring of capacity \<open>N\<close>, the
  snapshot holds the last \<open>N\<close> of the breadcrumbs that reached the ring (all of them when
  no \<open>beforeBreadcrumb\<close> callback is set), oldest first: at most \<open>N\<close>, and exactly \<open>N\<close>
  once that many were added. Calls made after the snapshot was taken change the ring and
  leave the snapshot as it was.
\<close>

theorem C7_ring_keeps_most_recent:
  "(new_ring N st0 = (ring, st1) \<and> snapshot ring (addBreadcrumbs f ring bs st1) = (s, st2) \<longrightarrow>
      st2 ! s = drop (length (accepted f bs) - N) (accepted f bs)
      \<and> length (st2 ! s) \<le> N
      \<and> (length (accepted f bs) \<ge> N \<longrightarrow> length (st2 ! s) = N)
      \<and> (\<forall>later. addBreadcrumbs f ring later st2 ! s = st2 ! s)
      \<and> (\<forall>later. addBreadcrumbs f ring later st2 ! buffer ring
            = drop (length (accepted f (bs @ later)) - N) (accepted f (bs @ later))))
   \<and> accepted None bs = bs"
proof (intro conjI impI allI)
  show "accepted None bs = bs" by (simp add: accepted_def)
next
  assume a: "new_ring N st0 = (ring, st1) \<and> snapshot ring (addBreadcrumbs f ring bs st1) = (s, st2)"
  let ?st = "addBreadcrumbs f ring bs st1"
  from a have ring: "capacity ring = N" "buffer ring = length st0" and st1: "st1 = st0 @ [[]]"
    by (auto simp: new_ring_def)
  then have lt: "buffer ring < length st1" and emp: "st1 ! buffer ring = []" by simp_all
  from a have s: "s = length ?st" and st2: "st2 = ?st @ [?st ! buffer ring]"
    by (auto simp: snapshot_def)
  have buf: "?st ! buffer ring = drop (length (accepted f bs) - N) (accepted f bs)"
    using addBreadcrumbs_buffer[OF lt, of f bs] emp ring by simp
  show snap: "st2 ! s = drop (length (accepted f bs) - N) (accepted f bs)"
    using buf s st2 by (simp add: nth_append)
  then show "length (st2 ! s) \<le> N" by simp
  from snap show "length (st2 ! s) = N" if "length (accepted f bs) \<ge> N"
    using that by simp
  have ne: "s \<noteq> buffer ring" using s lt by simp
  show "addBreadcrumbs f ring later st2 ! s = st2 ! s" for later
    using addBreadcrumbs_other[OF ne] .
  show "addBreadcrumbs f ring later st2 ! buffer ring
            = drop (length (accepted f (bs @ later)) - N) (accepted f (bs @ later))" for later
  proof -
    have lt2: "buffer ring < length st2" using st2 lt by simp
    have b2: "st2 ! buffer ring = ?st ! buffer ring" using st2 lt by (simp add: nth_append)
    then have le2: "length (st2 ! buffer ring) \<le> capacity ring" using buf ring by simp
    have acc: "accepted f (bs @ later) = accepted f bs @ accepted f later"
      by (simp add: accepted_def List.map_filter_def split: option.splits)
    from addBreadcrumbs_buffer[OF lt2 le2, of f later]
    have "addBreadcrumbs f ring later st2 ! buffer ring
        = drop (length (drop (length (accepted f bs) - N) (accepted f bs) @ accepted f later) - N)
            (drop (length (accepted f bs) - N) (accepted f bs) @ accepted f later)"
      using b2 buf ring by simp
    also have "\<dots> = drop (length (accepted f bs @ accepted f later) - N)
                      (accepted f bs @ accepted f later)"
      by (rule drop_drop_last)
    finally show ?thesis using acc by simp
  qed
qed

theorem C7_ring_keeps_most_recent_witness:
  "new_ring 2 ([] :: string store) = (\<lparr>capacity = 2, buffer = 0\<rparr>, [[]])
   \<and> snapshot \<lparr>capacity = 2, buffer = 0\<rparr>
         (addBreadcrumbs None \<lparr>capacity = 2, buffer = 0\<rparr> [''A'', ''B'', ''C''] [[]])
       = (1, [[''B'', ''C''], [''B'', ''C'']])
   \<and> ([[''B'', ''C''], [''B'', ''C'']] :: string store) ! 1 = [''B'', ''C'']
   \<and> length (([[''B'', ''C''], [''B'', ''C'']] :: string store) ! 1) = 2
   \<and> addBreadcrumbs None \<lparr>capacity = 2, buffer = 0\<rparr> [''D'', ''E'']
         [[''B'', ''C''], [''B'', ''C'']] ! 1 = [''B'', ''C'']
   \<and> addBreadcrumbs None \<lparr>capacity = 2, buffer = 0\<rparr> [''D'']
         [[''B'', ''C''], [''B'', ''C'']] ! 0 = [''C'', ''D'']"
proof -
  let ?R = "\<lparr>capacity = 2, buffer = 0\<rparr>"
  let ?st2 = "[[''B'', ''C''], [''B'', ''C'']] :: string store"
  have n: "new_ring 2 ([] :: string store) = (?R, [[]])"
    by (simp add: new_ring_def)
  have sn: "snapshot ?R (addBreadcrumbs None ?R [''A'', ''B'', ''C''] [[]]) = (1, ?st2)"
    by (simp add: snapshot_def addBreadcrumb_def ring_add_def Let_def)
  note t = C7_ring_keeps_most_recent[of 2 "[]" ?R "[[]]" None "[''A'', ''B'', ''C'']" 1 ?st2,
      THEN conjunct1, THEN mp, OF conjI[OF n sn]]
  note acc = C7_ring_keeps_most_recent[of 2 "[]" ?R "[[]]" None _ 1 ?st2, THEN conjunct2]
  have 1: "?st2 ! 1 = [''B'', ''C'']"
    using t[THEN conjunct1] unfolding acc by simp
  have 2: "length (?st2 ! 1) = 2"
    using t[THEN conjunct2, THEN conjunct2, THEN conjunct1] unfolding acc by simp
  have 3: "addBreadcrumbs None ?R [''D'', ''E''] ?st2 ! 1 = [''B'', ''C'']"
    using t[THEN conjunct2, THEN conjunct2, THEN conjunct2, THEN conjunct1, rule_format,
        of "[''D'', ''E'']"] 1 by simp
  have 4: "addBreadcrumbs None ?R [''D''] ?st2 ! 0 = [''C'', ''D'']"
    using t[THEN conjunct2, THEN conjunct2, THEN conjunct2, THEN conjunct2, rule_format,
        of "[''D'']"] unfolding acc by simp
  from n sn 1 2 3 4 show ?thesis by (intro conjI)
qed

end
